theory Spec2Isabelle
  imports Complex_Main
begin

section \<open>Numbers\<close>

text \<open>
  The programs compute with JavaScript numbers. They are modelled here by exact real
  arithmetic: every finite number is a \<^typ>\<open>real\<close>, and the operations \<open>+\<close>, \<open>-\<close>,
  \<open>*\<close>, \<open>/\<close>, \<open>**\<close>, \<open>Math.sin\<close>, \<open>Math.cos\<close>, \<open>Math.sqrt\<close>, \<open>Math.cbrt\<close> and
  \<open>Math.log10\<close> are the exact mathematical ones. The rounding of IEEE double precision
  is not part of the model. A value that is not a finite number in the program (\<open>NaN\<close>,
  an infinity, the result of a division by zero) is \<open>None\<close> of an option type, so that
  no theorem relies on the value HOL gives to a division by zero or to the logarithm of
  a non-positive number.
\<close>

definition js_trunc :: "real \<Rightarrow> int" where
  \<comment> \<open>rounding toward zero\<close>
  "js_trunc q = (if 0 \<le> q then \<lfloor>q\<rfloor> else \<lceil>q\<rceil>)"

definition js_rem :: "real \<Rightarrow> real \<Rightarrow> real" where
  \<comment> \<open>the operator \<open>%\<close> on finite numbers with a non-zero divisor: the remainder of the
     division truncated toward zero, which takes the sign of the dividend\<close>
  "js_rem x y = x - y * of_int (js_trunc (x / y))"

definition Math_round :: "real \<Rightarrow> int" where
  \<comment> \<open>\<open>Math.round\<close>: the nearest integer, a half rounded up\<close>
  "Math_round x = \<lfloor>x + 1 / 2\<rfloor>"

definition degToRad :: "real \<Rightarrow> real" where
  \<comment> \<open>\<open>THREE.MathUtils.degToRad\<close>: \<open>degrees * DEG2RAD\<close> with \<open>DEG2RAD = Math.PI / 180\<close>\<close>
  "degToRad degrees = degrees * (pi / 180)"

section \<open>The orbit propagator (model.js)\<close>

subsection \<open>Orbital elements and scales\<close>

text \<open>
  An entry of \<open>planetaryData\<close>, or the \<open>userData\<close> of a near-Earth object: the fields
  that \<open>updatePositions\<close> reads.
\<close>

record body =
  data_a :: real
  data_e :: real
  data_i :: real
  data_L :: real
  data_varpi :: real
  data_Omega :: real
  data_orbitalPeriod :: real

definition earth :: body where
  "earth = \<lparr>data_a = 1.000002, data_e = 0.016708, data_i = 0, data_L = 100.46435,
     data_varpi = 102.94719, data_Omega = 0, data_orbitalPeriod = 365.256\<rparr>"

definition mercury :: body where
  "mercury = \<lparr>data_a = 0.387098, data_e = 0.205630, data_i = 7.005, data_L = 252.25084,
     data_varpi = 77.45645, data_Omega = 48.33167, data_orbitalPeriod = 87.9691\<rparr>"

definition AU :: real where
  "AU = 149597870.7"

definition TRUE_SCALE_KM_PER_UNIT :: real where
  "TRUE_SCALE_KM_PER_UNIT = 10000000"

datatype scale = enhancedScale | trueScale

text \<open>
  \<^verbatim>\<open>enhancedScale.distance: (d) => Math.log10(d * AU / 1e6) * Math.sqrt(d) * 40
       + 10 * Math.cbrt(Math.log10(d * AU / 1e4))\<close>
  \<^verbatim>\<open>trueScale.distance: (d) => (d * AU) / TRUE_SCALE_KM_PER_UNIT\<close>

  The enhanced distance is not a number for \<open>d \<le> 0\<close> (the logarithm of zero or of a
  negative number).
\<close>

fun distance :: "scale \<Rightarrow> real \<Rightarrow> real option" where
  "distance enhancedScale d =
     (if d \<le> 0 then None
      else Some (log 10 (d * AU / 1000000) * sqrt d * 40
                 + 10 * root 3 (log 10 (d * AU / 10000))))"
| "distance trueScale d = Some ((d * AU) / TRUE_SCALE_KM_PER_UNIT)"

subsection \<open>Mean anomaly\<close>

text \<open>
  \<^verbatim>\<open>const M0 = data.L - data.varpi;
  const n = 360 / data.orbitalPeriod;
  const M = (M0 + n * daysSinceJ2000) % 360;\<close>

  With \<open>orbitalPeriod = 0\<close> the mean motion is infinite and \<open>M\<close> is \<open>NaN\<close>.
\<close>

definition meanAnomaly :: "body \<Rightarrow> real \<Rightarrow> real option" where
  "meanAnomaly data daysSinceJ2000 =
     (if data_orbitalPeriod data = 0 then None
      else
        let M0 = data_L data - data_varpi data;
            n = 360 / data_orbitalPeriod data
        in Some (js_rem (M0 + n * daysSinceJ2000) 360))"

subsection \<open>The Kepler solver\<close>

text \<open>
  \<^verbatim>\<open>function solveKepler(M, e) { let E = M; for (let i = 0; i < 7; i++)
     E = E - (E - e * Math.sin(E) - M) / (1 - e * Math.cos(E)); return E; }\<close>

  The loop body is \<open>newton_step\<close>; \<open>solveKepler_loop k\<close> runs the \<open>k\<close> iterations that
  remain. The denominator \<open>1 - e * cos E\<close> can vanish only when \<open>1 \<le> \<bar>e\<bar>\<close>.
\<close>

definition newton_step :: "real \<Rightarrow> real \<Rightarrow> real \<Rightarrow> real" where
  "newton_step M e E = E - (E - e * sin E - M) / (1 - e * cos E)"

primrec solveKepler_loop :: "nat \<Rightarrow> real \<Rightarrow> real \<Rightarrow> real \<Rightarrow> real" where
  "solveKepler_loop 0 M e E = E"
| "solveKepler_loop (Suc k) M e E = solveKepler_loop k M e (newton_step M e E)"

definition solveKepler :: "real \<Rightarrow> real \<Rightarrow> real" where
  "solveKepler M e = solveKepler_loop 7 M e M"

subsection \<open>Position in the orbital plane\<close>

text \<open>
  \<^verbatim>\<open>const a_scaled = currentScale.distance(data.a);
  const x_orb = a_scaled * (Math.cos(E) - data.e);
  const y_orb = a_scaled * Math.sqrt(1 - data.e ** 2) * Math.sin(E);\<close>

  The pair is \<open>None\<close> when the scaled axis is not a number, or when \<open>1 - e\<^sup>2\<close> is
  negative and its square root is \<open>NaN\<close>.
\<close>

definition orbitalCoordinates :: "scale \<Rightarrow> body \<Rightarrow> real \<Rightarrow> (real \<times> real) option" where
  "orbitalCoordinates currentScale data E =
     (case distance currentScale (data_a data) of
        None \<Rightarrow> None
      | Some a_scaled \<Rightarrow>
          if 1 - (data_e data)\<^sup>2 < 0 then None
          else
            let x_orb = a_scaled * (cos E - data_e data);
                y_orb = a_scaled * sqrt (1 - (data_e data)\<^sup>2) * sin E
            in Some (x_orb, y_orb))"

subsection \<open>Rotation into the ecliptic frame\<close>

text \<open>
  \<open>THREE.Matrix4\<close> and \<open>THREE.Vector3\<close> belong to the three.js library, which the
  repository uses and does not contain. The operations that \<open>updatePositions\<close> calls
  are modelled by their library definitions on the linear 3x3 part of the matrix, given
  by its rows: the matrices built here are rotations, whose fourth row and column are
  those of the identity, so that \<open>applyMatrix4\<close> divides by \<open>w = 1\<close>.
  \<open>a.multiply(b)\<close> is the product \<open>a \<sqdot> b\<close>, and \<open>v.applyMatrix4(m)\<close> is \<open>m \<sqdot> v\<close>.
\<close>

type_synonym Vector3 = "real \<times> real \<times> real"

type_synonym Matrix4 = "Vector3 \<times> Vector3 \<times> Vector3"

definition makeRotationX :: "real \<Rightarrow> Matrix4" where
  "makeRotationX theta =
     (let c = cos theta; s = sin theta in ((1, 0, 0), (0, c, - s), (0, s, c)))"

definition makeRotationY :: "real \<Rightarrow> Matrix4" where
  "makeRotationY theta =
     (let c = cos theta; s = sin theta in ((c, 0, s), (0, 1, 0), (- s, 0, c)))"

definition makeRotationZ :: "real \<Rightarrow> Matrix4" where
  "makeRotationZ theta =
     (let c = cos theta; s = sin theta in ((c, - s, 0), (s, c, 0), (0, 0, 1)))"

fun applyMatrix4 :: "Matrix4 \<Rightarrow> Vector3 \<Rightarrow> Vector3" where
  "applyMatrix4 ((n11, n12, n13), (n21, n22, n23), (n31, n32, n33)) (x, y, z) =
     (n11 * x + n12 * y + n13 * z,
      n21 * x + n22 * y + n23 * z,
      n31 * x + n32 * y + n33 * z)"

fun multiply :: "Matrix4 \<Rightarrow> Matrix4 \<Rightarrow> Matrix4" where
  "multiply ((a11, a12, a13), (a21, a22, a23), (a31, a32, a33))
            ((b11, b12, b13), (b21, b22, b23), (b31, b32, b33)) =
     ((a11 * b11 + a12 * b21 + a13 * b31,
       a11 * b12 + a12 * b22 + a13 * b32,
       a11 * b13 + a12 * b23 + a13 * b33),
      (a21 * b11 + a22 * b21 + a23 * b31,
       a21 * b12 + a22 * b22 + a23 * b32,
       a21 * b13 + a22 * b23 + a23 * b33),
      (a31 * b11 + a32 * b21 + a33 * b31,
       a31 * b12 + a32 * b22 + a33 * b32,
       a31 * b13 + a32 * b23 + a33 * b33))"

text \<open>
  model.js, \<open>updatePositions\<close>:
  \<^verbatim>\<open>const pos_orbit_plane = new THREE.Vector3(x_orb, 0, -y_orb);
  const i_rad = THREE.MathUtils.degToRad(data.i);
  const Omega_rad = THREE.MathUtils.degToRad(data.Omega);
  const varpi_rad = THREE.MathUtils.degToRad(data.varpi);
  const rotationMatrix = new THREE.Matrix4();
  // Rotation around the Ecliptic Z-axis (Longitude of Ascending Node)
  rotationMatrix.makeRotationY(Omega_rad);
  // Rotation around the Nodal Line (Inclination)
  rotationMatrix.multiply(new THREE.Matrix4().makeRotationX(i_rad));
  // Rotation in the orbital plane (Argument of Perihelion)
  rotationMatrix.multiply(new THREE.Matrix4().makeRotationY(varpi_rad));
  pos_orbit_plane.applyMatrix4(rotationMatrix);
  objGroup.position.copy(pos_orbit_plane);\<close>

  The result is the position of the object in the coordinates of the scene.
\<close>

definition position_model_js :: "body \<Rightarrow> real \<times> real \<Rightarrow> Vector3" where
  "position_model_js data orb =
     (case orb of (x_orb, y_orb) \<Rightarrow>
        let pos_orbit_plane = (x_orb, 0, - y_orb);
            i_rad = degToRad (data_i data);
            Omega_rad = degToRad (data_Omega data);
            varpi_rad = degToRad (data_varpi data);
            rotationMatrix = makeRotationY Omega_rad;
            rotationMatrix = multiply rotationMatrix (makeRotationX i_rad);
            rotationMatrix = multiply rotationMatrix (makeRotationY varpi_rad)
        in applyMatrix4 rotationMatrix pos_orbit_plane)"

text \<open>
  The second version of the file (src/unnamed/part_000), \<open>updatePositions\<close>:
  \<^verbatim>\<open>const omega = data.varpi - data.Omega;
  const mOmega = new THREE.Matrix4().makeRotationZ(THREE.MathUtils.degToRad(data.Omega));
  const mI = new THREE.Matrix4().makeRotationX(THREE.MathUtils.degToRad(data.i));
  const m_omega = new THREE.Matrix4().makeRotationZ(THREE.MathUtils.degToRad(omega));
  const pos = new THREE.Vector3(x_orb, y_orb, 0);
  pos.applyMatrix4(m_omega).applyMatrix4(mI).applyMatrix4(mOmega);
  // Map Ecliptic (X, Y, Z) to Three.js World (X, Z, -Y)
  objGroup.position.set(pos.x, pos.z, -pos.y);\<close>
\<close>

definition eclipticToWorld :: "Vector3 \<Rightarrow> Vector3" where
  "eclipticToWorld pos = (case pos of (x, y, z) \<Rightarrow> (x, z, - y))"

definition ecliptic_part_000 :: "body \<Rightarrow> real \<times> real \<Rightarrow> Vector3" where
  "ecliptic_part_000 data orb =
     (case orb of (x_orb, y_orb) \<Rightarrow>
        let omega = data_varpi data - data_Omega data;
            mOmega = makeRotationZ (degToRad (data_Omega data));
            mI = makeRotationX (degToRad (data_i data));
            m_omega = makeRotationZ (degToRad omega);
            pos = (x_orb, y_orb, 0)
        in applyMatrix4 mOmega (applyMatrix4 mI (applyMatrix4 m_omega pos)))"

definition position_part_000 :: "body \<Rightarrow> real \<times> real \<Rightarrow> Vector3" where
  "position_part_000 data orb = eclipticToWorld (ecliptic_part_000 data orb)"

text \<open>
  The rotation as the specification words it: the composition
  \<open>R = R\<^sub>z(\<Omega>) \<sqdot> R\<^sub>x(i) \<sqdot> R\<^sub>z(\<omega>)\<close> applied to the vector \<open>(x_orb, y_orb, 0)\<close> of the
  orbital plane, with the angle \<open>inner\<close> (in degrees) of the rotation applied first left
  open; the specification takes the argument of perihelion \<open>\<omega> = \<varpi> - \<Omega>\<close> for it.
\<close>

definition R_x :: "real \<Rightarrow> Matrix4" where
  "R_x t = ((1, 0, 0), (0, cos t, - sin t), (0, sin t, cos t))"

definition R_z :: "real \<Rightarrow> Matrix4" where
  "R_z t = ((cos t, - sin t, 0), (sin t, cos t, 0), (0, 0, 1))"

definition spec_rotation :: "real \<Rightarrow> body \<Rightarrow> real \<times> real \<Rightarrow> Vector3" where
  "spec_rotation inner data orb =
     applyMatrix4
       (multiply (multiply (R_z (degToRad (data_Omega data))) (R_x (degToRad (data_i data))))
          (R_z (degToRad inner)))
       (fst orb, snd orb, 0)"

definition spec_ecliptic :: "body \<Rightarrow> real \<times> real \<Rightarrow> Vector3" where
  "spec_ecliptic data orb = spec_rotation (data_varpi data - data_Omega data) data orb"

section \<open>The impact calculator (src/unnamed/part_001)\<close>

text \<open>
  An argument of these functions is what \<open>Number(...)\<close> makes of it: \<open>None\<close> is \<open>NaN\<close>,
  \<open>Some x\<close> the number \<open>x\<close>. A thrown \<open>Error\<close> is \<open>Inl\<close> of its message.
\<close>

datatype error = Error string

datatype classification = Severe | Moderate | Light

record impact_result =
  kinetic_energy_joules :: real
  kinetic_energy_megatons :: real
  severe_radius_km :: real
  moderate_radius_km :: real
  light_radius_km :: real
  damage_classification :: classification
  density_kg_m3 :: real
  speed_m_s :: real
  diameter_m :: real

definition calculateImpactRadius ::
    "real option \<Rightarrow> real option \<Rightarrow> real option \<Rightarrow> error + impact_result" where
  "calculateImpactRadius density speed diameter =
     (case (density, speed, diameter) of
        (Some d, Some s, Some dia) \<Rightarrow>
          if d \<le> 0 \<or> s \<le> 0 \<or> dia \<le> 0
          then Inl (Error ''Density, Speed, and Diameter must be positive values.'')
          else
            let kineticEnergy = (pi / 12) * d * (dia ^ 3) * (s ^ 2);
                severe_k = 0.00018;
                moderate_k = 0.0004;
                light_k = 0.0008;
                impactPowerThird = root 3 kineticEnergy;
                severe_radius_m = severe_k * impactPowerThird;
                moderate_radius_m = moderate_k * impactPowerThird;
                light_radius_m = light_k * impactPowerThird;
                severe_radius = severe_radius_m / 1000;
                moderate_radius = moderate_radius_m / 1000;
                light_radius = light_radius_m / 1000;
                classification =
                  (if severe_radius > 5 then Severe
                   else if moderate_radius > 2 then Moderate
                   else Light)
            in Inr \<lparr>kinetic_energy_joules = kineticEnergy,
                    kinetic_energy_megatons = kineticEnergy / 4184000000000000,
                    severe_radius_km = severe_radius,
                    moderate_radius_km = moderate_radius,
                    light_radius_km = light_radius,
                    damage_classification = classification,
                    density_kg_m3 = d,
                    speed_m_s = s,
                    diameter_m = dia\<rparr>
      | _ \<Rightarrow> Inl (Error ''All inputs must be numeric values.''))"

record casualty_result =
  severe_casualties :: int
  moderate_casualties :: int
  light_casualties :: int
  total_casualties :: int
  severe_area_km2 :: real
  moderate_area_km2 :: real
  light_area_km2 :: real
  total_area_km2 :: real

text \<open>
  \<open>estimateCasualties(severe_radius_km, moderate_radius_km, light_radius_km,
  population_density = 100)\<close>: the fourth argument is \<open>None\<close> when the caller leaves it
  out, and the default takes its place before the conversion to a number.
\<close>

definition estimateCasualties ::
    "real option \<Rightarrow> real option \<Rightarrow> real option \<Rightarrow> real option option
      \<Rightarrow> error + casualty_result" where
  "estimateCasualties severe_radius moderate_radius light_radius population_density =
     (let population = (case population_density of None \<Rightarrow> Some 100 | Some p \<Rightarrow> p) in
      case (severe_radius, moderate_radius, light_radius, population) of
        (Some severe_r, Some moderate_r, Some light_r, Some pop_density) \<Rightarrow>
          if severe_r < 0 \<or> moderate_r < 0 \<or> light_r < 0 \<or> pop_density < 0
          then Inl (Error ''All inputs must be non-negative numeric values.'')
          else
            let severe_area = pi * severe_r * severe_r;
                moderate_area = pi * moderate_r * moderate_r;
                light_area = pi * light_r * light_r;
                severe_c = severe_area * pop_density * 0.9;
                moderate_c = moderate_area * pop_density * 0.3;
                light_c = light_area * pop_density * 0.05;
                total_c = severe_c + moderate_c + light_c
            in Inr \<lparr>severe_casualties = Math_round severe_c,
                    moderate_casualties = Math_round moderate_c,
                    light_casualties = Math_round light_c,
                    total_casualties = Math_round total_c,
                    severe_area_km2 = severe_area,
                    moderate_area_km2 = moderate_area,
                    light_area_km2 = light_area,
                    total_area_km2 = severe_area + moderate_area + light_area\<rparr>
      | _ \<Rightarrow> Inl (Error ''All inputs must be non-negative numeric values.''))"

section \<open>The Palermo scale calculator (impact-calculator.js)\<close>

definition MT_J :: real where
  "MT_J = 4184000000000000"

text \<open>
  \<^verbatim>\<open>function energyFromSizeMt(d_m, rho, v_kms) {
    if (!d_m || !rho || !v_kms || d_m <= 0 || rho <= 0 || v_kms <= 0) return NaN;
    const m = (PI / 6) * rho * Math.pow(d_m, 3);
    const v = v_kms * 1000;
    const EJ = 0.5 * m * v * v;
    return EJ / MT_J; }\<close>
\<close>

definition energyFromSizeMt :: "real option \<Rightarrow> real option \<Rightarrow> real option \<Rightarrow> real option" where
  "energyFromSizeMt d_m rho v_kms =
     (case (d_m, rho, v_kms) of
        (Some d, Some r, Some vk) \<Rightarrow>
          if d \<le> 0 \<or> r \<le> 0 \<or> vk \<le> 0 then None
          else
            let m = (pi / 6) * r * d ^ 3;
                v = vk * 1000;
                EJ = 0.5 * m * v * v
            in Some (EJ / MT_J)
      | _ \<Rightarrow> None)"

text \<open>
  The Palermo scale value and its interpretation in \<open>recalc\<close>, from the parsed inputs
  \<open>Pi\<close>, \<open>Ti\<close> and the background frequency \<open>fbVal\<close>:
  \<^verbatim>\<open>let PS = NaN;
  if (isFinite(Pi) && Pi > 0 && isFinite(Ti) && Ti > 0 && isFinite(fbVal) && fbVal > 0) {
      PS = Math.log10((Pi / Ti) / fbVal);
  }
  psInterpEl.textContent = isFinite(PS)
      ? (PS > 0 ? 'Above background risk'
                : (PS > -2 ? 'Comparable to background' : 'Well below background'))
      : (a dash);\<close>
\<close>

definition recalc_PS :: "real option \<Rightarrow> real option \<Rightarrow> real option \<Rightarrow> real option" where
  "recalc_PS Pi Ti fbVal =
     (case (Pi, Ti, fbVal) of
        (Some p, Some t, Some f) \<Rightarrow>
          if p > 0 \<and> t > 0 \<and> f > 0 then Some (log 10 ((p / t) / f)) else None
      | _ \<Rightarrow> None)"

datatype ps_interpretation =
  Above_background_risk | Comparable_to_background | Well_below_background | Dash

definition recalc_psInterp :: "real option \<Rightarrow> ps_interpretation" where
  "recalc_psInterp PS =
     (case PS of
        None \<Rightarrow> Dash
      | Some ps \<Rightarrow>
          if ps > 0 then Above_background_risk
          else if ps > - 2 then Comparable_to_background
          else Well_below_background)"

section \<open>Notions of the specification\<close>

text \<open>
  The mean anomaly as the specification words it: \<open>(M0 + n \<sqdot> \<Delta>days) mod 360\<close> with a
  result in the range from 0 (included) to 360 (excluded).
\<close>

definition spec_mod360 :: "real \<Rightarrow> real" where
  "spec_mod360 x = x - 360 * of_int \<lfloor>x / 360\<rfloor>"

definition spec_meanAnomaly :: "body \<Rightarrow> real \<Rightarrow> real" where
  "spec_meanAnomaly data days =
     spec_mod360 (data_L data - data_varpi data + 360 / data_orbitalPeriod data * days)"

text \<open>
  One result of \<open>calculateImpactRadius\<close> lies strictly below another: both calls return,
  and the energy and the three radii of the first are smaller.
\<close>

definition strictly_below :: "error + impact_result \<Rightarrow> error + impact_result \<Rightarrow> bool" where
  "strictly_below x y =
     (case (x, y) of
        (Inr r, Inr r') \<Rightarrow>
          kinetic_energy_joules r < kinetic_energy_joules r'
          \<and> severe_radius_km r < severe_radius_km r'
          \<and> moderate_radius_km r < moderate_radius_km r'
          \<and> light_radius_km r < light_radius_km r'
      | _ \<Rightarrow> False)"

text \<open>An argument of \<open>estimateCasualties\<close> that is negative or not a number.\<close>

definition negative_or_NaN :: "real option \<Rightarrow> bool" where
  "negative_or_NaN v = (case v of None \<Rightarrow> True | Some x \<Rightarrow> x < 0)"

definition zero_casualties :: casualty_result where
  "zero_casualties =
     \<lparr>severe_casualties = 0, moderate_casualties = 0, light_casualties = 0,
      total_casualties = 0, severe_area_km2 = 0, moderate_area_km2 = 0,
      light_area_km2 = 0, total_area_km2 = 0\<rparr>"

section \<open>Auxiliary functions of the convergence proof\<close>

text \<open>
  The residual of Kepler's equation at the value that the solver returns.
\<close>

definition kepler_residual :: "real \<Rightarrow> real \<Rightarrow> real" where
  "kepler_residual M e = solveKepler M e - e * sin (solveKepler M e) - M"

text \<open>
  For the mean anomaly \<open>M = s - e sin s\<close>, whose eccentric anomaly is \<open>s\<close>, a Newton step
  from \<open>E\<close> lands at \<open>s + e \<sqdot> chord_gap s E / (1 - e cos E)\<close>.
\<close>

definition chord_gap :: "real \<Rightarrow> real \<Rightarrow> real" where
  "chord_gap s E = sin E - sin s - (E - s) * cos E"

text \<open>
  The first iterate at eccentricity \<open>19/20\<close> stays below \<open>\<pi>\<close> exactly when
  \<open>first_gap\<close> is not negative.
\<close>

definition first_gap :: "real \<Rightarrow> real" where
  "first_gap x = (pi - x) * (1 - 19 / 20 * cos x) - 19 / 20 * sin x"

text \<open>
  The Maclaurin polynomials of sine and cosine below order 16, and the bound of the
  remainder of order 16, for the enclosure of sine and cosine at rational points.
\<close>

definition sin_poly :: "real \<Rightarrow> real" where
  "sin_poly x = x - x^3 / 6 + x^5 / 120 - x^7 / 5040 + x^9 / 362880 - x^11 / 39916800
     + x^13 / 6227020800 - x^15 / 1307674368000"

definition cos_poly :: "real \<Rightarrow> real" where
  "cos_poly x = 1 - x^2 / 2 + x^4 / 24 - x^6 / 720 + x^8 / 40320 - x^10 / 3628800
     + x^12 / 479001600 - x^14 / 87178291200"

definition taylor_rem :: "real \<Rightarrow> real" where
  "taylor_rem x = x^16 / 20922789888000"

section \<open>The mean anomaly\<close>

lemma spec_mod360_range: "0 \<le> spec_mod360 x \<and> spec_mod360 x < 360"
proof -
  have "of_int \<lfloor>x / 360\<rfloor> \<le> x / 360" "x / 360 < of_int \<lfloor>x / 360\<rfloor> + 1"
    by linarith+
  then have "360 * of_int \<lfloor>x / 360\<rfloor> \<le> x" "x < 360 * of_int \<lfloor>x / 360\<rfloor> + 360"
    by linarith+
  then show ?thesis unfolding spec_mod360_def by linarith
qed

lemma js_rem_nonneg:
  assumes "0 \<le> x"
  shows "js_rem x 360 = spec_mod360 x"
  using assms by (simp add: js_rem_def js_trunc_def spec_mod360_def)

lemma js_rem_neg:
  assumes "x < 0"
  shows "- 360 < js_rem x 360 \<and> js_rem x 360 \<le> 0"
proof -
  have t: "js_trunc (x / 360) = \<lceil>x / 360\<rceil>" using assms by (simp add: js_trunc_def)
  have "x / 360 \<le> of_int \<lceil>x / 360\<rceil>" "of_int \<lceil>x / 360\<rceil> < x / 360 + 1"
    by linarith+
  then have "x \<le> 360 * of_int \<lceil>x / 360\<rceil>" "360 * of_int \<lceil>x / 360\<rceil> < x + 360"
    by linarith+
  then show ?thesis unfolding js_rem_def t by linarith
qed

lemma js_rem_360_bounds: "\<bar>js_rem x 360\<bar> < 360 \<and> 0 \<le> js_rem x 360 * x"
proof (cases "0 \<le> x")
  case True
  then show ?thesis using spec_mod360_range [of x] by (simp add: js_rem_nonneg)
next
  case False
  then have neg: "x < 0" by simp
  from js_rem_neg [OF neg] have "\<bar>js_rem x 360\<bar> < 360" by linarith
  moreover have "0 \<le> js_rem x 360 * x"
    using js_rem_neg [OF neg] neg by (simp add: mult_nonpos_nonpos)
  ultimately show ?thesis by simp
qed

lemma js_rem_360_congruent: "x = js_rem x 360 + 360 * of_int (js_trunc (x / 360))"
  by (simp add: js_rem_def)

lemma meanAnomaly_earth: "meanAnomaly earth 0 = Some (- 2.48284)"
  by (simp add: meanAnomaly_def earth_def js_rem_def js_trunc_def Let_def)

lemma spec_meanAnomaly_earth: "spec_meanAnomaly earth 0 = 357.51716"
proof -
  have "\<lfloor>(- 2.48284 :: real) / 360\<rfloor> = - 1" by (simp add: floor_eq_iff)
  then show ?thesis by (simp add: spec_meanAnomaly_def spec_mod360_def earth_def)
qed

text \<open>
  Claim C3, as stated, fails: for the Earth at the epoch itself (zero elapsed days) the
  propagator computes the mean anomaly \<open>-2.48284\<close> degrees, which is negative, where the
  remainder with a range from 0 to 360 is \<open>357.51716\<close> degrees.
\<close>

theorem meanAnomaly_negative_counterexample:
  "meanAnomaly earth 0 = Some (- 2.48284) \<and> spec_meanAnomaly earth 0 = 357.51716
   \<and> meanAnomaly earth 0 \<noteq> Some (spec_meanAnomaly earth 0)"
  by (simp add: meanAnomaly_earth spec_meanAnomaly_earth)

text \<open>
  Claim C3, amended. For every body with a non-zero orbital period and every simulated
  time, before or after the epoch, the mean anomaly \<open>M\<close> of the propagator is the
  remainder of \<open>M0 + n \<sqdot> \<Delta>days\<close> (with \<open>M0 = L - \<varpi>\<close> and \<open>n = 360 / orbitalPeriod\<close>) in the
  division by 360 truncated toward zero: \<open>M\<close> differs from \<open>M0 + n \<sqdot> \<Delta>days\<close> by a whole
  multiple of 360, lies strictly between \<open>-360\<close> and \<open>360\<close>, and is zero or has the sign
  of \<open>M0 + n \<sqdot> \<Delta>days\<close>.
\<close>

theorem meanAnomaly_truncated_remainder:
  assumes "data_orbitalPeriod data \<noteq> 0"
  shows "\<exists>M (k::int). meanAnomaly data days = Some M
      \<and> data_L data - data_varpi data + 360 / data_orbitalPeriod data * days
          = M + 360 * of_int k
      \<and> \<bar>M\<bar> < 360
      \<and> 0 \<le> M * (data_L data - data_varpi data + 360 / data_orbitalPeriod data * days)"
proof -
  let ?x = "data_L data - data_varpi data + 360 / data_orbitalPeriod data * days"
  have "meanAnomaly data days = Some (js_rem ?x 360)"
    using assms by (simp add: meanAnomaly_def Let_def)
  moreover have "?x = js_rem ?x 360 + 360 * of_int (js_trunc (?x / 360))"
    by (rule js_rem_360_congruent)
  moreover have "\<bar>js_rem ?x 360\<bar> < 360 \<and> 0 \<le> js_rem ?x 360 * ?x"
    by (rule js_rem_360_bounds)
  ultimately show ?thesis by blast
qed

theorem meanAnomaly_truncated_remainder_witness:
  "data_orbitalPeriod earth \<noteq> 0
   \<and> (\<exists>M (k::int). meanAnomaly earth 0 = Some M
      \<and> data_L earth - data_varpi earth + 360 / data_orbitalPeriod earth * 0
          = M + 360 * of_int k
      \<and> \<bar>M\<bar> < 360
      \<and> 0 \<le> M * (data_L earth - data_varpi earth + 360 / data_orbitalPeriod earth * 0))"
proof -
  have h: "data_orbitalPeriod earth \<noteq> 0" by (simp add: earth_def)
  show ?thesis using h meanAnomaly_truncated_remainder [OF h, of 0] by simp
qed

section \<open>Enclosures of sine, cosine and \<open>\<pi>\<close>\<close>

text \<open>
  The Maclaurin expansion with its remainder encloses \<open>sin x\<close> and \<open>cos x\<close> for
  \<open>x > 0\<close> between \<open>sin_poly x \<plusminus> taylor_rem x\<close> and \<open>cos_poly x \<plusminus> taylor_rem x\<close>. A bound at
  a rational point is then an inequality between rational numbers.
\<close>

lemma sum_lessThan_16:
  fixes f :: "nat \<Rightarrow> real"
  shows "(\<Sum>m<16. f m) = f 0 + f 1 + f 2 + f 3 + f 4 + f 5 + f 6 + f 7 + f 8 + f 9
     + f 10 + f 11 + f 12 + f 13 + f 14 + f 15"
  by (simp add: eval_nat_numeral lessThan_Suc)

lemma sin_coeff_values:
  "sin_coeff 0 = 0" "sin_coeff 1 = 1" "sin_coeff 2 = 0" "sin_coeff 3 = - 1 / 6"
  "sin_coeff 4 = 0" "sin_coeff 5 = 1 / 120" "sin_coeff 6 = 0" "sin_coeff 7 = - 1 / 5040"
  "sin_coeff 8 = 0" "sin_coeff 9 = 1 / 362880" "sin_coeff 10 = 0"
  "sin_coeff 11 = - 1 / 39916800" "sin_coeff 12 = 0" "sin_coeff 13 = 1 / 6227020800"
  "sin_coeff 14 = 0" "sin_coeff 15 = - 1 / 1307674368000"
  by (simp_all add: sin_coeff_def fact_numeral)

lemma cos_coeff_values_16:
  "cos_coeff 0 = 1" "cos_coeff 1 = 0" "cos_coeff 2 = - 1 / 2" "cos_coeff 3 = 0"
  "cos_coeff 4 = 1 / 24" "cos_coeff 5 = 0" "cos_coeff 6 = - 1 / 720" "cos_coeff 7 = 0"
  "cos_coeff 8 = 1 / 40320" "cos_coeff 9 = 0" "cos_coeff 10 = - 1 / 3628800"
  "cos_coeff 11 = 0" "cos_coeff 12 = 1 / 479001600" "cos_coeff 13 = 0"
  "cos_coeff 14 = - 1 / 87178291200" "cos_coeff 15 = 0"
  by (simp_all add: cos_coeff_def fact_numeral)

lemma fact_16: "fact 16 = (20922789888000 :: real)"
  by (simp add: fact_numeral)

lemma remainder_bound:
  fixes x c :: real
  assumes "0 \<le> x" "\<bar>c\<bar> \<le> 1"
  shows "\<bar>c / fact 16 * x ^ 16\<bar> \<le> taylor_rem x"
proof -
  have "\<bar>c / fact 16 * x ^ 16\<bar> = \<bar>c\<bar> * (x ^ 16 / 20922789888000)"
    using assms by (simp add: fact_16 abs_mult)
  also have "\<dots> \<le> 1 * (x ^ 16 / 20922789888000)"
    using assms by (intro mult_right_mono) simp_all
  finally show ?thesis by (simp add: taylor_rem_def)
qed

lemma sin_taylor:
  fixes x :: real
  assumes "0 < x"
  shows "\<bar>sin x - sin_poly x\<bar> \<le> taylor_rem x"
proof -
  obtain t where t: "sin x = (\<Sum>m<16. sin_coeff m * x ^ m)
      + (sin (t + 1 / 2 * real 16 * pi) / fact 16) * x ^ 16"
    using Maclaurin_sin_expansion3 [of 16 x] assms by auto
  have p: "(\<Sum>m<16. sin_coeff m * x ^ m) = sin_poly x"
    unfolding sum_lessThan_16 sin_coeff_values sin_poly_def by simp
  have "\<bar>sin (t + 1 / 2 * real 16 * pi) / fact 16 * x ^ 16\<bar> \<le> taylor_rem x"
    using assms by (intro remainder_bound) simp_all
  then show ?thesis unfolding t p by simp
qed

lemma cos_taylor:
  fixes x :: real
  assumes "0 < x"
  shows "\<bar>cos x - cos_poly x\<bar> \<le> taylor_rem x"
proof -
  obtain t where t: "cos x = (\<Sum>m<16. cos_coeff m * x ^ m)
      + (cos (t + 1 / 2 * real 16 * pi) / fact 16) * x ^ 16"
    using Maclaurin_cos_expansion2 [of x 16] assms by auto
  have p: "(\<Sum>m<16. cos_coeff m * x ^ m) = cos_poly x"
    unfolding sum_lessThan_16 cos_coeff_values_16 cos_poly_def by simp
  have "\<bar>cos (t + 1 / 2 * real 16 * pi) / fact 16 * x ^ 16\<bar> \<le> taylor_rem x"
    using assms by (intro remainder_bound) simp_all
  then show ?thesis unfolding t p by simp
qed

lemma sin_le_rule:
  fixes x :: real
  assumes "0 < x" "sin_poly x + taylor_rem x \<le> r"
  shows "sin x \<le> r"
  using sin_taylor [OF assms(1)] assms(2) by linarith

lemma sin_ge_rule:
  fixes x :: real
  assumes "0 < x" "r \<le> sin_poly x - taylor_rem x"
  shows "r \<le> sin x"
  using sin_taylor [OF assms(1)] assms(2) by linarith

lemma cos_le_rule:
  fixes x :: real
  assumes "0 < x" "cos_poly x + taylor_rem x \<le> r"
  shows "cos x \<le> r"
  using cos_taylor [OF assms(1)] assms(2) by linarith

lemma cos_ge_rule:
  fixes x :: real
  assumes "0 < x" "r \<le> cos_poly x - taylor_rem x"
  shows "r \<le> cos x"
  using cos_taylor [OF assms(1)] assms(2) by linarith

text \<open>The sign of the cosine at 1.5705 and at 1.571 places \<open>\<pi>\<close> between 3.141 and 3.142.\<close>

lemma cos_15705_pos: "0 < cos (3141 / 2000 :: real)"
proof -
  have "1 / 10000 \<le> cos (3141 / 2000 :: real)"
    by (rule cos_ge_rule) (simp_all add: cos_poly_def taylor_rem_def power_divide)
  then show ?thesis by simp
qed

lemma cos_1571_neg: "cos (1571 / 1000 :: real) < 0"
proof -
  have "cos (1571 / 1000 :: real) \<le> - 1 / 10000"
    by (rule cos_le_rule) (simp_all add: cos_poly_def taylor_rem_def power_divide)
  then show ?thesis by simp
qed

lemma pi_bounds: "3.141 < pi" "pi < 3.142"
proof -
  show "3.141 < pi"
  proof (rule ccontr)
    assume "\<not> 3.141 < pi"
    then have "pi / 2 \<le> 3141 / 2000" by simp
    moreover have "(3141 / 2000 :: real) \<le> pi" using pi_ge_two by simp
    ultimately have "cos (3141 / 2000) \<le> cos (pi / 2)"
      by (intro cos_monotone_0_pi_le) simp_all
    then show False using cos_15705_pos by simp
  qed
  show "pi < 3.142"
  proof (rule ccontr)
    assume "\<not> pi < 3.142"
    then have "1571 / 1000 \<le> pi / 2" by simp
    then have "0 \<le> cos (1571 / 1000 :: real)"
      by (intro cos_ge_zero) simp_all
    then show False using cos_1571_neg by simp
  qed
qed

section \<open>The Kepler solver on circular orbits\<close>

lemma newton_step_circular: "newton_step M 0 M = M"
  by (simp add: newton_step_def)

lemma solveKepler_loop_circular: "solveKepler_loop k M 0 M = M"
  by (induction k) (simp_all add: newton_step_circular)

text \<open>
  Claim C9. With eccentricity zero the solver returns the mean anomaly itself: every
  Newton step maps the seed \<open>M\<close> to \<open>M\<close>, so after the seven iterations the eccentric
  anomaly of a circular orbit equals the mean anomaly.
\<close>

theorem solveKepler_circular: "solveKepler M 0 = M"
  unfolding solveKepler_def by (rule solveKepler_loop_circular)

section \<open>Convergence of the Kepler solver\<close>

text \<open>
  The residual after the seven iterations is bounded for every eccentricity up to
  \<open>19/20\<close>. The mean anomaly is reduced to the range from 0 to \<open>\<pi>\<close> by the symmetries of
  the iteration and written \<open>M = s - e sin s\<close> with its eccentric anomaly \<open>s\<close>. From the
  first iterate on, the iterates lie to the right of \<open>s\<close>; they decrease, each step is
  monotone in the iterate, in \<open>M\<close> and in \<open>e\<close>, and squares the error up to a constant.
\<close>

subsection \<open>One Newton step\<close>

lemma denom_pos:
  fixes e :: real
  assumes "0 \<le> e" "e < 1"
  shows "0 < 1 - e * cos E"
proof -
  have "e * cos E \<le> e * 1" using assms by (intro mult_left_mono) simp_all
  then show ?thesis using assms by simp
qed

lemma denom_le:
  fixes e :: real
  assumes "0 \<le> e" "e \<le> 1"
  shows "1 - e * cos E \<le> 1 + e"
proof -
  have "e * (- 1) \<le> e * cos E" using assms by (intro mult_left_mono) simp_all
  then show ?thesis by simp
qed

lemma newton_step_error:
  assumes "0 \<le> e" "e < 1"
  shows "newton_step (s - e * sin s) e E - s = e * chord_gap s E / (1 - e * cos E)"
proof -
  have "0 < 1 - e * cos E" using assms by (rule denom_pos)
  then show ?thesis
    unfolding newton_step_def chord_gap_def by (simp add: field_simps)
qed

lemma sin_diff_bound:
  fixes u w :: real
  assumes "w \<le> u"
  shows "sin u - sin w \<le> u - w" and "sin w - sin u \<le> u - w"
proof -
  define h where "h = (u - w) / 2"
  define m where "m = (u + w) / 2"
  have h0: "0 \<le> h" using assms by (simp add: h_def)
  have split: "sin u - sin w = 2 * (sin h * cos m)"
    by (simp add: sin_diff_sin h_def m_def)
  have "\<bar>sin h * cos m\<bar> \<le> \<bar>sin h\<bar> * 1"
    unfolding abs_mult by (intro mult_left_mono) simp_all
  also have "\<dots> \<le> h" using abs_sin_x_le_abs_x [of h] h0 by simp
  finally have "\<bar>sin h * cos m\<bar> \<le> h" .
  then have "\<bar>sin u - sin w\<bar> \<le> 2 * h" unfolding split by simp
  moreover have "2 * h = u - w" by (simp add: h_def)
  ultimately show "sin u - sin w \<le> u - w" and "sin w - sin u \<le> u - w"
    by linarith+
qed

lemma chord_gap_nonneg:
  assumes "0 \<le> s" "s \<le> pi" "0 \<le> E" "E \<le> pi"
  shows "0 \<le> chord_gap s E"
proof -
  consider "s < E" | "E < s" | "s = E" by linarith
  then show ?thesis
  proof cases
    case 1
    have "\<exists>z. s < z \<and> z < E \<and> sin E - sin s = (E - s) * cos z"
      by (rule MVT2 [OF 1]) (auto intro: derivative_eq_intros)
    then obtain z where z: "s < z" "z < E" "sin E - sin s = (E - s) * cos z" by blast
    have "cos E \<le> cos z" using z assms by (intro cos_monotone_0_pi_le) simp_all
    then have "(E - s) * cos E \<le> (E - s) * cos z" using 1 by (intro mult_left_mono) simp_all
    then show ?thesis unfolding chord_gap_def using z(3) by simp
  next
    case 2
    have "\<exists>z. E < z \<and> z < s \<and> sin s - sin E = (s - E) * cos z"
      by (rule MVT2 [OF 2]) (auto intro: derivative_eq_intros)
    then obtain z where z: "E < z" "z < s" "sin s - sin E = (s - E) * cos z" by blast
    have "cos z \<le> cos E" using z assms by (intro cos_monotone_0_pi_le) simp_all
    then have "(s - E) * cos z \<le> (s - E) * cos E" using 2 by (intro mult_left_mono) simp_all
    then show ?thesis unfolding chord_gap_def using z(3) by (simp add: algebra_simps)
  next
    case 3
    then show ?thesis by (simp add: chord_gap_def)
  qed
qed

lemma residual_bounds:
  fixes e :: real
  assumes "0 \<le> e" "e \<le> 1" "s \<le> E"
  shows "0 \<le> E - e * sin E - (s - e * sin s)"
    and "E - e * sin E - (s - e * sin s) \<le> (1 + e) * (E - s)"
proof -
  have "\<bar>sin E - sin s\<bar> \<le> E - s"
    using sin_diff_bound [OF assms(3)] by (simp add: abs_le_iff)
  then have "\<bar>e * (sin E - sin s)\<bar> \<le> e * (E - s)"
    using assms by (simp add: abs_mult mult_left_mono)
  moreover have "e * (E - s) \<le> 1 * (E - s)" using assms by (intro mult_right_mono) simp_all
  ultimately show "0 \<le> E - e * sin E - (s - e * sin s)"
    and "E - e * sin E - (s - e * sin s) \<le> (1 + e) * (E - s)"
    by (simp_all add: algebra_simps abs_le_iff)
qed

lemma newton_step_le:
  assumes "0 \<le> e" "e < 1" "s \<le> E"
  shows "newton_step (s - e * sin s) e E \<le> E"
proof -
  have "0 < 1 - e * cos E" using assms by (intro denom_pos)
  moreover have "0 \<le> E - e * sin E - (s - e * sin s)"
    using assms by (intro residual_bounds) simp_all
  ultimately have "0 \<le> (E - e * sin E - (s - e * sin s)) / (1 - e * cos E)" by simp
  then show ?thesis unfolding newton_step_def by simp
qed

lemma newton_step_ge:
  assumes "0 \<le> e" "e < 1" "0 \<le> chord_gap s E"
  shows "s \<le> newton_step (s - e * sin s) e E"
proof -
  have "0 < 1 - e * cos E" using assms by (intro denom_pos)
  then have "0 \<le> e * chord_gap s E / (1 - e * cos E)" using assms by simp
  then show ?thesis using newton_step_error [OF assms(1,2), of s E] by simp
qed

lemma newton_step_mono_M:
  assumes "0 \<le> e" "e < 1" "M \<le> M'"
  shows "newton_step M e E \<le> newton_step M' e E"
proof -
  have "0 < 1 - e * cos E" using assms by (intro denom_pos)
  then have "(E - e * sin E - M') / (1 - e * cos E) \<le> (E - e * sin E - M) / (1 - e * cos E)"
    using assms by (intro divide_right_mono) simp_all
  then show ?thesis unfolding newton_step_def by simp
qed

lemma newton_step_mono_e:
  assumes "0 \<le> e" "e \<le> e'" "e' < 1" "0 \<le> chord_gap s E"
  shows "newton_step (s - e * sin s) e E \<le> newton_step (s - e' * sin s) e' E"
proof -
  have d: "0 < 1 - e * cos E" "0 < 1 - e' * cos E" using assms by (intro denom_pos; simp)+
  have "e * (1 - e' * cos E) \<le> e' * (1 - e * cos E)" using assms by (simp add: algebra_simps)
  then have "e / (1 - e * cos E) \<le> e' / (1 - e' * cos E)"
    using d by (simp add: field_simps)
  then have "e / (1 - e * cos E) * chord_gap s E \<le> e' / (1 - e' * cos E) * chord_gap s E"
    using assms by (intro mult_right_mono) simp_all
  then have "e * chord_gap s E / (1 - e * cos E) \<le> e' * chord_gap s E / (1 - e' * cos E)" by simp
  then show ?thesis
    using newton_step_error [of e s E] newton_step_error [of e' s E] assms by simp
qed

lemma quotient_rule_algebra:
  fixes D G S :: real
  assumes "D \<noteq> 0"
  shows "1 - (D * D - G * S) / (D * D) = G * S / D\<^sup>2"
  using assms by (simp add: field_simps power2_eq_square)

lemma newton_step_deriv:
  assumes "0 \<le> e" "e < 1"
  shows "((\<lambda>x. newton_step M e x) has_real_derivative
           ((x - e * sin x - M) * (e * sin x) / (1 - e * cos x)\<^sup>2)) (at x)"
proof -
  have d: "1 - e * cos x \<noteq> 0" using denom_pos [OF assms, of x] by simp
  have "((\<lambda>x. x - (x - e * sin x - M) / (1 - e * cos x)) has_real_derivative
      (1 - ((1 - e * cos x) * (1 - e * cos x) - (x - e * sin x - M) * (e * sin x))
            / ((1 - e * cos x) * (1 - e * cos x)))) (at x)"
    by (rule derivative_eq_intros refl d | simp add: d)+
  then show ?thesis
    unfolding newton_step_def quotient_rule_algebra [OF d] .
qed

lemma newton_step_mono_right:
  assumes e: "0 \<le> e" "e < 1" and "0 \<le> s" "s \<le> E" "E \<le> E'" "E' \<le> pi"
  shows "newton_step (s - e * sin s) e E \<le> newton_step (s - e * sin s) e E'"
proof (rule DERIV_nonneg_imp_nondecreasing [OF \<open>E \<le> E'\<close>])
  fix x assume x: "E \<le> x" "x \<le> E'"
  let ?M = "s - e * sin s"
  have "0 \<le> x - e * sin x - ?M" using e x assms by (intro residual_bounds) simp_all
  moreover have "0 \<le> sin x" using x assms by (intro sin_ge_zero) simp_all
  ultimately have "0 \<le> (x - e * sin x - ?M) * (e * sin x) / (1 - e * cos x)\<^sup>2"
    using e by simp
  then show "\<exists>y. ((\<lambda>x. newton_step ?M e x) has_real_derivative y) (at x) \<and> 0 \<le> y"
    using newton_step_deriv [OF e] by blast
qed

lemma newton_step_antimono_left:
  assumes e: "0 \<le> e" "e < 1" and "0 \<le> E" "E \<le> E'" "E' \<le> s" "s \<le> pi"
  shows "newton_step (s - e * sin s) e E' \<le> newton_step (s - e * sin s) e E"
proof (rule DERIV_nonpos_imp_nonincreasing [OF \<open>E \<le> E'\<close>])
  fix x assume x: "E \<le> x" "x \<le> E'"
  let ?M = "s - e * sin s"
  have "0 \<le> s - e * sin s - (x - e * sin x)" using e x assms by (intro residual_bounds) simp_all
  then have "x - e * sin x - ?M \<le> 0" by simp
  moreover have "0 \<le> e * sin x" using x assms e by (intro mult_nonneg_nonneg sin_ge_zero) simp_all
  ultimately have "(x - e * sin x - ?M) * (e * sin x) \<le> 0"
    by (rule mult_nonpos_nonneg)
  then have "(x - e * sin x - ?M) * (e * sin x) / (1 - e * cos x)\<^sup>2 \<le> 0"
    by (simp add: divide_nonpos_nonneg)
  then show "\<exists>y. ((\<lambda>x. newton_step ?M e x) has_real_derivative y) (at x) \<and> y \<le> 0"
    using newton_step_deriv [OF e] by blast
qed

lemma newton_step_antimono_beyond:
  assumes e: "0 \<le> e" "e < 1" and "s \<le> pi" "pi \<le> E" "E \<le> 2 * pi"
  shows "newton_step (s - e * sin s) e E \<le> newton_step (s - e * sin s) e pi"
proof (rule DERIV_nonpos_imp_nonincreasing [OF \<open>pi \<le> E\<close>])
  fix x assume x: "pi \<le> x" "x \<le> E"
  let ?M = "s - e * sin s"
  have "0 \<le> x - e * sin x - ?M" using e x assms by (intro residual_bounds) simp_all
  moreover have "0 \<le> sin (x - pi)" using x assms by (intro sin_ge_zero) simp_all
  then have "sin x \<le> 0" by (simp add: sin_diff)
  then have "e * sin x \<le> 0" using e by (simp add: mult_nonneg_nonpos)
  ultimately have "(x - e * sin x - ?M) * (e * sin x) \<le> 0"
    by (rule mult_nonneg_nonpos)
  then have "(x - e * sin x - ?M) * (e * sin x) / (1 - e * cos x)\<^sup>2 \<le> 0"
    by (simp add: divide_nonpos_nonneg)
  then show "\<exists>y. ((\<lambda>x. newton_step ?M e x) has_real_derivative y) (at x) \<and> y \<le> 0"
    using newton_step_deriv [OF e] by blast
qed

subsection \<open>Bounds across eccentricities and mean anomalies\<close>

lemma mean_anomaly_bounds:
  fixes e :: real
  assumes "0 \<le> e" "e \<le> e'" "e' \<le> 1" "0 \<le> s" "s \<le> pi"
  shows "0 \<le> s - e' * sin s" "s - e' * sin s \<le> s - e * sin s" "s - e * sin s \<le> s"
proof -
  have s0: "0 \<le> sin s" using assms by (intro sin_ge_zero) simp_all
  have "e' * sin s \<le> 1 * sin s" using assms s0 by (intro mult_right_mono) simp_all
  moreover have "sin s \<le> s" using assms by (intro sin_x_le_x) simp_all
  ultimately show "0 \<le> s - e' * sin s" by simp
  have "e * sin s \<le> e' * sin s" using assms s0 by (intro mult_right_mono) simp_all
  then show "s - e' * sin s \<le> s - e * sin s" by simp
  show "s - e * sin s \<le> s" using assms s0 by simp
qed

lemma first_step_mono_e:
  assumes "0 \<le> e" "e \<le> e'" "e' < 1" "0 \<le> s" "s \<le> pi"
  shows "newton_step (s - e * sin s) e (s - e * sin s)
       \<le> newton_step (s - e' * sin s) e' (s - e' * sin s)"
proof -
  let ?M = "s - e * sin s" and ?M' = "s - e' * sin s"
  have e1: "e' \<le> 1" "e \<le> 1" "e < 1" using assms by simp_all
  have M: "0 \<le> ?M'" "?M' \<le> ?M" "?M \<le> s"
    using mean_anomaly_bounds [OF assms(1,2) e1(1) assms(4,5)] by simp_all
  have "0 \<le> chord_gap s ?M" using M assms by (intro chord_gap_nonneg) simp_all
  then have "newton_step ?M e ?M \<le> newton_step ?M' e' ?M"
    using assms by (intro newton_step_mono_e) simp_all
  also have "\<dots> \<le> newton_step ?M' e' ?M'"
    using assms M by (intro newton_step_antimono_left) simp_all
  finally show ?thesis .
qed

lemma first_step_ge:
  assumes "0 \<le> e" "e < 1" "0 \<le> s" "s \<le> pi"
  shows "s \<le> newton_step (s - e * sin s) e (s - e * sin s)"
proof -
  have "0 \<le> s - e * sin s" "s - e * sin s \<le> s"
    using mean_anomaly_bounds [of e e s] assms by simp_all
  then have "0 \<le> chord_gap s (s - e * sin s)" using assms by (intro chord_gap_nonneg) simp_all
  then show ?thesis using assms by (intro newton_step_ge) simp_all
qed

lemma newton_step_between:
  assumes "0 \<le> e" "e < 1" "0 \<le> s" "s \<le> E" "E \<le> pi"
  shows "s \<le> newton_step (s - e * sin s) e E" "newton_step (s - e * sin s) e E \<le> E"
proof -
  have "0 \<le> chord_gap s E" using assms by (intro chord_gap_nonneg) simp_all
  then show "s \<le> newton_step (s - e * sin s) e E" using assms by (intro newton_step_ge) simp_all
  show "newton_step (s - e * sin s) e E \<le> E" using assms by (intro newton_step_le) simp_all
qed

lemma newton_step_upper_bound:
  assumes e: "0 \<le> e" "e \<le> 19 / 20"
    and "0 \<le> s" "s \<le> b" "b \<le> U" "U \<le> pi" "s \<le> E" "E \<le> U"
  shows "newton_step (s - e * sin s) e E \<le> newton_step (b - 19 / 20 * sin b) (19 / 20) U"
proof (cases "E \<le> b")
  case True
  have "newton_step (s - e * sin s) e E \<le> E" using assms by (intro newton_step_le) simp_all
  also have "E \<le> b" by (rule True)
  also have "b \<le> newton_step (b - 19 / 20 * sin b) (19 / 20) U"
    using assms by (intro newton_step_between) simp_all
  finally show ?thesis .
next
  case False
  then have bE: "b \<le> E" by simp
  have "0 \<le> chord_gap s E" using assms by (intro chord_gap_nonneg) simp_all
  then have "newton_step (s - e * sin s) e E \<le> newton_step (s - 19 / 20 * sin s) (19 / 20) E"
    using e by (intro newton_step_mono_e) simp_all
  also have "\<dots> \<le> newton_step (b - 19 / 20 * sin b) (19 / 20) E"
  proof (rule newton_step_mono_M)
    show "s - 19 / 20 * sin s \<le> b - 19 / 20 * sin b"
      using residual_bounds(1) [of "19 / 20" s b] assms by simp
  qed simp_all
  also have "\<dots> \<le> newton_step (b - 19 / 20 * sin b) (19 / 20) U"
    using assms bE by (intro newton_step_mono_right) simp_all
  finally show ?thesis .
qed

lemma chord_gap_quadratic:
  assumes "s < E"
  shows "\<exists>t. s < t \<and> t < E \<and> chord_gap s E = sin t * (E - s)\<^sup>2 / 2"
proof -
  let ?diff = "\<lambda>(m::nat) x. sin (x + 1 / 2 * real m * pi)"
  have "\<exists>t. s < t \<and> t < E \<and>
      sin s = (\<Sum>m<2. (?diff m E / fact m) * (s - E) ^ m) + (?diff 2 t / fact 2) * (s - E) ^ 2"
  proof (rule Taylor_down [where b = E])
    show "(0::nat) < 2" by simp
    show "?diff 0 = sin" by simp
    show "\<forall>m t. m < 2 \<and> s \<le> t \<and> t \<le> E \<longrightarrow>
        ((\<lambda>x. sin (x + 1 / 2 * real m * pi)) has_real_derivative
          sin (t + 1 / 2 * real (Suc m) * pi)) (at t)"
      by (auto intro!: derivative_eq_intros simp: sin_expansion_lemma simp del: of_nat_Suc)
    show "s < E" by (rule assms)
    show "E \<le> E" by simp
  qed
  then obtain t where t: "s < t" "t < E"
    "sin s = (\<Sum>m<2. (?diff m E / fact m) * (s - E) ^ m) + (?diff 2 t / fact 2) * (s - E) ^ 2"
    by blast
  have "(\<Sum>m<2. (?diff m E / fact m) * (s - E) ^ m) = sin E + cos E * (s - E)"
    by (simp add: numeral_2_eq_2 sin_add)
  moreover have "?diff 2 t = - sin t" by (simp add: sin_add)
  ultimately have "sin s = sin E + cos E * (s - E) - sin t * (s - E)\<^sup>2 / 2"
    using t(3) by (simp add: fact_numeral)
  then have "chord_gap s E = sin t * (s - E)\<^sup>2 / 2" unfolding chord_gap_def by (simp add: algebra_simps)
  also have "(s - E)\<^sup>2 = (E - s)\<^sup>2" by (simp add: power2_commute)
  finally show ?thesis using t(1,2) by blast
qed

subsection \<open>Quadratic convergence\<close>

lemma two_squares_identity:
  fixes a b k :: real
  shows "(a + k * b)\<^sup>2 + (k * a - b)\<^sup>2 = (1 + k\<^sup>2) * (a\<^sup>2 + b\<^sup>2)"
  by (simp add: power2_eq_square algebra_simps)

lemma cos_nonpos_quadrant:
  assumes "pi / 2 \<le> E" "E \<le> pi"
  shows "cos E \<le> 0"
proof -
  have "cos E \<le> cos (pi / 2)" using assms by (intro cos_monotone_0_pi_le) simp_all
  then show ?thesis by simp
qed

lemma sin_cos_combination:
  fixes E :: real
  shows "sin E + 61 / 20 * cos E \<le> 321 / 100"
proof (rule ccontr)
  assume "\<not> sin E + 61 / 20 * cos E \<le> 321 / 100"
  then have big: "321 / 100 < sin E + 61 / 20 * cos E" by simp
  have "(321 / 100)\<^sup>2 < (sin E + 61 / 20 * cos E)\<^sup>2"
    using big by (intro power_strict_mono) simp_all
  moreover have "(sin E + 61 / 20 * cos E)\<^sup>2 + (61 / 20 * sin E - cos E)\<^sup>2
      = (1 + (61 / 20)\<^sup>2) * ((sin E)\<^sup>2 + (cos E)\<^sup>2)"
    by (rule two_squares_identity)
  then have "(sin E + 61 / 20 * cos E)\<^sup>2 + (61 / 20 * sin E - cos E)\<^sup>2 = 1 + (61 / 20)\<^sup>2"
    by (simp only: sin_cos_squared_add mult_1_right)
  moreover have "0 \<le> (61 / 20 * sin E - cos E)\<^sup>2" by simp
  ultimately have "(321 / 100 :: real)\<^sup>2 < 1 + (61 / 20)\<^sup>2" by linarith
  then show False by (simp add: power2_eq_square)
qed

lemma newton_ratio_bound:
  fixes e :: real
  assumes "0 \<le> e" "e \<le> 19 / 20" "0 \<le> t" "t \<le> E" "E \<le> pi"
  shows "e * sin t \<le> 61 / 20 * (1 - e * cos E)"
proof (cases "E \<le> pi / 2")
  case True
  have st: "sin t \<le> sin E" using assms True by (intro sin_monotone_2pi_le) simp_all
  have s0: "0 \<le> sin E" using assms by (intro sin_ge_zero) simp_all
  have c0: "0 \<le> cos E" using assms True by (intro cos_ge_zero) simp_all
  have "0 \<le> sin E + 61 / 20 * cos E" using s0 c0 by simp
  then have "e * (sin E + 61 / 20 * cos E) \<le> 19 / 20 * (sin E + 61 / 20 * cos E)"
    using assms by (intro mult_right_mono) simp_all
  also have "\<dots> \<le> 19 / 20 * (321 / 100)"
    using sin_cos_combination [of E] by (intro mult_left_mono) simp_all
  also have "\<dots> \<le> 61 / 20" by simp
  finally have "e * sin E + 61 / 20 * (e * cos E) \<le> 61 / 20" by (simp add: algebra_simps)
  moreover have "e * sin t \<le> e * sin E" using st assms by (intro mult_left_mono) simp_all
  ultimately show ?thesis by (simp add: algebra_simps)
next
  case False
  then have "cos E \<le> 0" using assms by (intro cos_nonpos_quadrant) simp_all
  then have "e * cos E \<le> 0" using assms by (simp add: mult_nonneg_nonpos)
  moreover have "e * sin t \<le> e * 1" using assms by (intro mult_left_mono) simp_all
  then have "e * sin t \<le> 19 / 20 * 1" using assms by simp
  ultimately show ?thesis by simp
qed

lemma newton_step_quadratic:
  assumes "0 \<le> e" "e \<le> 19 / 20" "0 \<le> s" "s \<le> E" "E \<le> pi"
  shows "newton_step (s - e * sin s) e E - s \<le> 61 / 40 * (E - s)\<^sup>2"
proof (cases "s = E")
  case True
  then show ?thesis using newton_step_error [of e s E] assms by (simp add: chord_gap_def)
next
  case False
  then have "s < E" using assms by simp
  then obtain t where t: "s < t" "t < E" "chord_gap s E = sin t * (E - s)\<^sup>2 / 2"
    using chord_gap_quadratic by blast
  have d: "0 < 1 - e * cos E" using assms by (intro denom_pos) simp_all
  have "e * sin t \<le> 61 / 20 * (1 - e * cos E)"
    using assms t by (intro newton_ratio_bound) simp_all
  then have "e * sin t / (1 - e * cos E) \<le> 61 / 20" using d by (simp add: field_simps)
  then have "e * sin t / (1 - e * cos E) * ((E - s)\<^sup>2 / 2) \<le> 61 / 20 * ((E - s)\<^sup>2 / 2)"
    by (intro mult_right_mono) simp_all
  moreover have "newton_step (s - e * sin s) e E - s
      = e * sin t / (1 - e * cos E) * ((E - s)\<^sup>2 / 2)"
  proof -
    have "newton_step (s - e * sin s) e E - s = e * chord_gap s E / (1 - e * cos E)"
      using assms by (intro newton_step_error) simp_all
    also have "\<dots> = e * sin t / (1 - e * cos E) * ((E - s)\<^sup>2 / 2)"
      unfolding t(3) using d by (simp add: field_simps)
    finally show ?thesis .
  qed
  ultimately show ?thesis by simp
qed

lemma newton_step_quadratic_far:
  assumes "0 \<le> e" "e \<le> 19 / 20" "pi / 2 \<le> s" "s \<le> E" "E \<le> pi"
  shows "newton_step (s - e * sin s) e E - s \<le> 19 / 40 * (E - s)\<^sup>2"
proof (cases "s = E")
  case True
  then show ?thesis using newton_step_error [of e s E] assms by (simp add: chord_gap_def)
next
  case False
  then have "s < E" using assms by simp
  then obtain t where t: "s < t" "t < E" "chord_gap s E = sin t * (E - s)\<^sup>2 / 2"
    using chord_gap_quadratic by blast
  have d: "0 < 1 - e * cos E" using assms by (intro denom_pos) simp_all
  have "cos E \<le> 0" using assms by (intro cos_nonpos_quadrant) simp_all
  then have "e * cos E \<le> 0" using assms by (simp add: mult_nonneg_nonpos)
  moreover have "e * sin t \<le> e * 1" using assms by (intro mult_left_mono) simp_all
  then have "e * sin t \<le> 19 / 20 * 1" using assms by simp
  ultimately have "e * sin t \<le> 19 / 20 * (1 - e * cos E)" by simp
  then have "e * sin t / (1 - e * cos E) \<le> 19 / 20" using d by (simp add: field_simps)
  then have "e * sin t / (1 - e * cos E) * ((E - s)\<^sup>2 / 2) \<le> 19 / 20 * ((E - s)\<^sup>2 / 2)"
    by (intro mult_right_mono) simp_all
  moreover have "newton_step (s - e * sin s) e E - s
      = e * sin t / (1 - e * cos E) * ((E - s)\<^sup>2 / 2)"
  proof -
    have "newton_step (s - e * sin s) e E - s = e * chord_gap s E / (1 - e * cos E)"
      using assms by (intro newton_step_error) simp_all
    also have "\<dots> = e * sin t / (1 - e * cos E) * ((E - s)\<^sup>2 / 2)"
      unfolding t(3) using d by (simp add: field_simps)
    finally show ?thesis .
  qed
  ultimately show ?thesis by simp
qed

lemma quadratic_step:
  assumes "0 \<le> e" "e \<le> 19 / 20" "0 \<le> s" "s \<le> E" "E \<le> pi"
    and "E - s \<le> d" "61 / 40 * d\<^sup>2 \<le> d'"
  shows "s \<le> newton_step (s - e * sin s) e E \<and> newton_step (s - e * sin s) e E \<le> pi
       \<and> newton_step (s - e * sin s) e E - s \<le> d'"
proof -
  have e1: "e < 1" using assms by simp
  have b: "s \<le> newton_step (s - e * sin s) e E" "newton_step (s - e * sin s) e E \<le> E"
    using newton_step_between [OF assms(1) e1 assms(3,4,5)] by simp_all
  have "(E - s)\<^sup>2 \<le> d\<^sup>2" using assms by (intro power_mono) simp_all
  then have "61 / 40 * (E - s)\<^sup>2 \<le> 61 / 40 * d\<^sup>2" by (intro mult_left_mono) simp_all
  then have "61 / 40 * (E - s)\<^sup>2 \<le> d'" using assms(7) by linarith
  then have "newton_step (s - e * sin s) e E - s \<le> d'"
    using newton_step_quadratic [OF assms(1,2,3,4,5)] by simp
  then show ?thesis using b assms by simp
qed

lemma quadratic_step_far:
  assumes "0 \<le> e" "e \<le> 19 / 20" "pi / 2 \<le> s" "s \<le> E" "E \<le> pi"
    and "E - s \<le> d" "19 / 40 * d\<^sup>2 \<le> d'"
  shows "s \<le> newton_step (s - e * sin s) e E \<and> newton_step (s - e * sin s) e E \<le> pi
       \<and> newton_step (s - e * sin s) e E - s \<le> d'"
proof -
  have e1: "e < 1" using assms by simp
  have s0: "0 \<le> s" using assms pi_ge_zero by linarith
  have b: "s \<le> newton_step (s - e * sin s) e E" "newton_step (s - e * sin s) e E \<le> E"
    using newton_step_between [OF assms(1) e1 s0 assms(4,5)] by simp_all
  have "(E - s)\<^sup>2 \<le> d\<^sup>2" using assms by (intro power_mono) simp_all
  then have "19 / 40 * (E - s)\<^sup>2 \<le> 19 / 40 * d\<^sup>2" by (intro mult_left_mono) simp_all
  then have "19 / 40 * (E - s)\<^sup>2 \<le> d'" using assms(7) by linarith
  then have "newton_step (s - e * sin s) e E - s \<le> d'"
    using newton_step_quadratic_far [OF assms(1,2,3,4,5)] by simp
  then show ?thesis using b assms by simp
qed

lemma residual_small:
  fixes e :: real
  assumes "0 \<le> e" "e \<le> 19 / 20" "s \<le> E" "E - s \<le> 1 / 2000000"
  shows "\<bar>E - e * sin E - (s - e * sin s)\<bar> < 1 / 10 ^ 6"
proof -
  have e1: "e \<le> 1" using assms by simp
  have r: "0 \<le> E - e * sin E - (s - e * sin s)"
    "E - e * sin E - (s - e * sin s) \<le> (1 + e) * (E - s)"
    using residual_bounds [OF assms(1) e1 assms(3)] by simp_all
  have "(1 + e) * (E - s) \<le> (39 / 20) * (1 / 2000000)"
    using assms by (intro mult_mono) simp_all
  then show ?thesis using r by simp
qed

lemma kepler_tail:
  assumes "0 \<le> e" "e \<le> 19 / 20" "0 \<le> s" "s \<le> E" "E \<le> pi" "E - s \<le> 27 / 100"
  shows "\<bar>solveKepler_loop 4 (s - e * sin s) e E
          - e * sin (solveKepler_loop 4 (s - e * sin s) e E) - (s - e * sin s)\<bar> < 1 / 10 ^ 6"
proof -
  let ?M = "s - e * sin s"
  define E4 where "E4 = newton_step ?M e E"
  define E5 where "E5 = newton_step ?M e E4"
  define E6 where "E6 = newton_step ?M e E5"
  define E7 where "E7 = newton_step ?M e E6"
  have loop: "solveKepler_loop 4 ?M e E = E7"
    by (simp add: eval_nat_numeral E4_def E5_def E6_def E7_def)
  have 4: "s \<le> E4 \<and> E4 \<le> pi \<and> E4 - s \<le> 1112 / 10000"
    unfolding E4_def using assms
    by (intro quadratic_step [where d = "27 / 100"]) (simp_all add: power2_eq_square)
  have 5: "s \<le> E5 \<and> E5 \<le> pi \<and> E5 - s \<le> 1886 / 100000"
    unfolding E5_def using assms 4
    by (intro quadratic_step [where d = "1112 / 10000"]) (simp_all add: power2_eq_square)
  have 6: "s \<le> E6 \<and> E6 \<le> pi \<and> E6 - s \<le> 543 / 1000000"
    unfolding E6_def using assms 5
    by (intro quadratic_step [where d = "1886 / 100000"]) (simp_all add: power2_eq_square)
  have 7: "s \<le> E7 \<and> E7 \<le> pi \<and> E7 - s \<le> 1 / 2000000"
    unfolding E7_def using assms 6
    by (intro quadratic_step [where d = "543 / 1000000"]) (simp_all add: power2_eq_square)
  show ?thesis unfolding loop using assms 7 by (intro residual_small) simp_all
qed

lemma kepler_tail_far:
  assumes "0 \<le> e" "e \<le> 19 / 20" "pi / 2 \<le> s" "s \<le> E" "E \<le> pi"
  shows "\<bar>solveKepler_loop 6 (s - e * sin s) e E
          - e * sin (solveKepler_loop 6 (s - e * sin s) e E) - (s - e * sin s)\<bar> < 1 / 10 ^ 6"
proof -
  let ?M = "s - e * sin s"
  define E2 where "E2 = newton_step ?M e E"
  define E3 where "E3 = newton_step ?M e E2"
  define E4 where "E4 = newton_step ?M e E3"
  define E5 where "E5 = newton_step ?M e E4"
  define E6 where "E6 = newton_step ?M e E5"
  define E7 where "E7 = newton_step ?M e E6"
  have loop: "solveKepler_loop 6 ?M e E = E7"
    by (simp add: eval_nat_numeral E2_def E3_def E4_def E5_def E6_def E7_def)
  have "pi < 3.142" using pi_bounds by simp
  then have 1: "E - s \<le> 1571 / 1000" using assms by simp
  have 2: "s \<le> E2 \<and> E2 \<le> pi \<and> E2 - s \<le> 11724 / 10000"
    unfolding E2_def using assms 1
    by (intro quadratic_step_far [where d = "1571 / 1000"]) (simp_all add: power2_eq_square)
  have 3: "s \<le> E3 \<and> E3 \<le> pi \<and> E3 - s \<le> 6529 / 10000"
    unfolding E3_def using assms 2
    by (intro quadratic_step_far [where d = "11724 / 10000"]) (simp_all add: power2_eq_square)
  have 4: "s \<le> E4 \<and> E4 \<le> pi \<and> E4 - s \<le> 2025 / 10000"
    unfolding E4_def using assms 3
    by (intro quadratic_step_far [where d = "6529 / 10000"]) (simp_all add: power2_eq_square)
  have 5: "s \<le> E5 \<and> E5 \<le> pi \<and> E5 - s \<le> 1948 / 100000"
    unfolding E5_def using assms 4
    by (intro quadratic_step_far [where d = "2025 / 10000"]) (simp_all add: power2_eq_square)
  have 6: "s \<le> E6 \<and> E6 \<le> pi \<and> E6 - s \<le> 1803 / 10000000"
    unfolding E6_def using assms 5
    by (intro quadratic_step_far [where d = "1948 / 100000"]) (simp_all add: power2_eq_square)
  have 7: "s \<le> E7 \<and> E7 \<le> pi \<and> E7 - s \<le> 1 / 2000000"
    unfolding E7_def using assms 6
    by (intro quadratic_step_far [where d = "1803 / 10000000"]) (simp_all add: power2_eq_square)
  show ?thesis unfolding loop using assms 7 by (intro residual_small) simp_all
qed

subsection \<open>The first iterate\<close>

lemma first_step_formula:
  "newton_step M e M = M + e * sin M / (1 - e * cos M)"
  by (simp add: newton_step_def)

lemma sin_le_pi_minus:
  assumes "x \<le> pi"
  shows "sin x \<le> pi - x"
proof -
  have "sin (pi - x) \<le> pi - x" using assms by (intro sin_x_le_x) simp
  then show ?thesis by simp
qed

lemma sin_062: "581 / 1000 \<le> sin (62 / 100 :: real)" "sin (62 / 100 :: real) \<le> 58104 / 100000"
  by (rule sin_ge_rule sin_le_rule; simp add: sin_poly_def taylor_rem_def power_divide)+

lemma cos_062: "cos (62 / 100 :: real) \<le> 8139 / 10000"
  by (rule cos_le_rule) (simp_all add: cos_poly_def taylor_rem_def power_divide)

lemma sin_1: "84 / 100 \<le> sin (1 :: real)"
  by (rule sin_ge_rule) (simp_all add: sin_poly_def taylor_rem_def)

lemma sin_158: "9999 / 10000 \<le> sin (158 / 100 :: real)"
  by (rule sin_ge_rule) (simp_all add: sin_poly_def taylor_rem_def power_divide)

lemma cos_056: "847 / 1000 \<le> cos (56 / 100 :: real)"
  by (rule cos_ge_rule) (simp_all add: cos_poly_def taylor_rem_def power_divide)

lemma first_gap_deriv:
  "(first_gap has_real_derivative (19 / 20 * (pi - x) * sin x - 1)) (at x)"
  unfolding first_gap_def
  by (rule derivative_eq_intros refl | simp)+

lemma first_gap_062: "0 \<le> first_gap (62 / 100)"
proof -
  have c: "1 - 19 / 20 * (8139 / 10000) \<le> 1 - 19 / 20 * cos (62 / 100 :: real)"
    using cos_062 by simp
  have "(3141 / 1000 - 62 / 100) * (1 - 19 / 20 * (8139 / 10000))
      \<le> (pi - 62 / 100) * (1 - 19 / 20 * cos (62 / 100))"
    using c pi_bounds by (intro mult_mono) simp_all
  then show ?thesis unfolding first_gap_def using sin_062(2) by simp
qed

lemma first_gap_increasing:
  assumes "62 / 100 \<le> x" "x \<le> pi / 2"
  shows "0 \<le> 19 / 20 * (pi - x) * sin x - 1"
proof (cases "x \<le> 1")
  case True
  have "sin (62 / 100) \<le> sin x" using assms by (intro sin_monotone_2pi_le) simp_all
  then have s: "581 / 1000 \<le> sin x" using sin_062(1) by simp
  have "3141 / 1000 - 1 \<le> pi - x" using True pi_bounds by simp
  then have "(3141 / 1000 - 1) * (581 / 1000) \<le> (pi - x) * sin x"
    using s by (intro mult_mono) simp_all
  then have "20 / 19 \<le> (pi - x) * sin x" by simp
  then have "19 / 20 * (20 / 19) \<le> 19 / 20 * ((pi - x) * sin x)"
    by (intro mult_left_mono) simp_all
  then show ?thesis by (simp only: mult.assoc)
next
  case False
  then have "sin 1 \<le> sin x" using assms by (intro sin_monotone_2pi_le) simp_all
  then have s: "84 / 100 \<le> sin x" using sin_1 by simp
  have "3141 / 2000 \<le> pi - x" using assms pi_bounds by simp
  then have "(3141 / 2000) * (84 / 100) \<le> (pi - x) * sin x"
    using s by (intro mult_mono) simp_all
  then have "20 / 19 \<le> (pi - x) * sin x" by simp
  then have "19 / 20 * (20 / 19) \<le> 19 / 20 * ((pi - x) * sin x)"
    by (intro mult_left_mono) simp_all
  then show ?thesis by (simp only: mult.assoc)
qed

lemma first_gap_nonneg:
  assumes "62 / 100 \<le> M" "M \<le> pi / 2"
  shows "0 \<le> first_gap M"
proof -
  have "first_gap (62 / 100) \<le> first_gap M"
  proof (rule DERIV_nonneg_imp_nondecreasing [OF assms(1)])
    fix x :: real assume x: "62 / 100 \<le> x" "x \<le> M"
    have "0 \<le> 19 / 20 * (pi - x) * sin x - 1"
      using x assms by (intro first_gap_increasing) simp_all
    then show "\<exists>y. (first_gap has_real_derivative y) (at x) \<and> 0 \<le> y"
      using first_gap_deriv by blast
  qed
  then show ?thesis using first_gap_062 by simp
qed

lemma first_step_le_pi:
  assumes "62 / 100 \<le> M" "M \<le> pi"
  shows "newton_step M (19 / 20) M \<le> pi"
proof (cases "M \<le> pi / 2")
  case True
  have d: "0 < 1 - 19 / 20 * cos M" by (intro denom_pos) simp_all
  have "0 \<le> first_gap M" using assms True by (intro first_gap_nonneg) simp_all
  then have "19 / 20 * sin M \<le> (pi - M) * (1 - 19 / 20 * cos M)" by (simp add: first_gap_def)
  then have "19 / 20 * sin M / (1 - 19 / 20 * cos M) \<le> pi - M"
    using d by (simp add: field_simps)
  then show ?thesis unfolding first_step_formula by simp
next
  case False
  then have M: "pi / 2 \<le> M" by simp
  have d: "0 < 1 - 19 / 20 * cos M" by (intro denom_pos) simp_all
  have "cos M \<le> 0" using M assms by (intro cos_nonpos_quadrant) simp_all
  then have d1: "1 \<le> 1 - 19 / 20 * cos M" by simp
  have s0: "0 \<le> sin M" using M assms by (intro sin_ge_zero) simp_all
  have "19 / 20 * sin M \<le> sin M * (1 - 19 / 20 * cos M)"
  proof -
    have "sin M * 1 \<le> sin M * (1 - 19 / 20 * cos M)" using s0 d1 by (intro mult_left_mono) simp_all
    moreover have "19 / 20 * sin M \<le> sin M" using s0 by simp
    ultimately show ?thesis by simp
  qed
  then have "19 / 20 * sin M / (1 - 19 / 20 * cos M) \<le> sin M"
    using d by (simp add: field_simps)
  also have "sin M \<le> pi - M" using assms by (intro sin_le_pi_minus) simp_all
  finally show ?thesis unfolding first_step_formula by simp
qed

subsection \<open>Eccentric anomalies in the upper and in the lower range\<close>

text \<open>
  For \<open>s \<ge> \<pi>/2\<close> the first iterate stays below \<open>\<pi>\<close> and six quadratic steps remain. For
  \<open>s \<le> 1.58\<close> the second and third iterates are bounded by Newton steps at eccentricity
  \<open>19/20\<close> from rational points, for \<open>s\<close> in an interval from \<open>a\<close> to \<open>b\<close>.
\<close>

lemma solveKepler_unfold1:
  "solveKepler M e = solveKepler_loop 6 M e (newton_step M e M)"
  by (simp add: solveKepler_def eval_nat_numeral)

lemma solveKepler_unfold3:
  "solveKepler M e
     = solveKepler_loop 4 M e (newton_step M e (newton_step M e (newton_step M e M)))"
  by (simp add: solveKepler_def eval_nat_numeral)

lemma zone_far:
  assumes "0 \<le> e" "e \<le> 19 / 20" "pi / 2 \<le> s" "s \<le> pi"
  shows "\<bar>solveKepler (s - e * sin s) e - e * sin (solveKepler (s - e * sin s) e)
          - (s - e * sin s)\<bar> < 1 / 10 ^ 6"
proof -
  let ?M = "s - e * sin s" and ?M' = "s - 19 / 20 * sin s"
  have s0: "0 \<le> s" using assms pi_ge_zero by linarith
  have e1: "e < 1" using assms by simp
  have "s \<le> newton_step ?M e ?M" using assms e1 s0 by (intro first_step_ge) simp_all
  moreover have "newton_step ?M e ?M \<le> pi"
  proof -
    have "newton_step ?M e ?M \<le> newton_step ?M' (19 / 20) ?M'"
      using assms s0 by (intro first_step_mono_e) simp_all
    also have "\<dots> \<le> pi"
    proof (rule first_step_le_pi)
      have "19 / 20 * sin s \<le> 19 / 20 * 1" by (intro mult_left_mono) simp_all
      moreover have "3141 / 2000 \<le> s" using assms pi_bounds by simp
      ultimately show "62 / 100 \<le> ?M'" by linarith
      have "0 \<le> sin s" using assms s0 by (intro sin_ge_zero) simp_all
      then show "?M' \<le> pi" using assms by simp
    qed
    finally show ?thesis .
  qed
  ultimately show ?thesis
    unfolding solveKepler_unfold1 using assms by (intro kepler_tail_far) simp_all
qed

lemma chord_gap_nonneg_beyond:
  assumes "0 \<le> s" "s \<le> 158 / 100" "pi \<le> E" "E \<le> pi + 56 / 100"
  shows "0 \<le> chord_gap s E"
proof -
  define d where "d = E - pi"
  have d: "0 \<le> d" "d \<le> 56 / 100" using assms by (simp_all add: d_def)
  have E: "E = d + pi" by (simp add: d_def)
  have sE: "sin E = - sin d" and cE: "cos E = - cos d" unfolding E by simp_all
  have "cos (56 / 100) \<le> cos d" using d pi_bounds by (intro cos_monotone_0_pi_le) simp_all
  then have c: "847 / 1000 \<le> cos d" using cos_056 by simp
  have sd: "sin d \<le> d" using d by (intro sin_x_le_x) simp_all
  have Es: "1561 / 1000 + d \<le> E - s" using assms pi_bounds unfolding E by simp
  have "(1561 / 1000 + d) * (847 / 1000) \<le> (E - s) * cos d"
    using Es c d by (intro mult_mono) simp_all
  then have "1322167 / 1000000 + 847 / 1000 * d \<le> (E - s) * cos d"
    by (simp add: algebra_simps)
  moreover have "chord_gap s E = (E - s) * cos d - sin d - sin s"
    unfolding chord_gap_def sE cE by simp
  moreover have "sin s \<le> 1" by simp
  ultimately show ?thesis using sd d by linarith
qed

lemma first_step_bound:
  assumes "0 \<le> s" "s \<le> 158 / 100"
  shows "newton_step (s - 19 / 20 * sin s) (19 / 20) (s - 19 / 20 * sin s) \<le> pi + 56 / 100"
proof -
  let ?M = "s - 19 / 20 * sin s"
  have spi: "s \<le> pi" using assms pi_bounds by simp
  have M: "0 \<le> ?M" "?M \<le> s"
    using mean_anomaly_bounds [of "19 / 20" "19 / 20" s] assms spi by simp_all
  have "?M \<le> 158 / 100 - 19 / 20 * sin (158 / 100)"
    using residual_bounds(1) [of "19 / 20" s "158 / 100"] assms by simp
  then have Mh: "?M \<le> 6301 / 10000" using sin_158 by simp
  have d: "0 < 1 - 19 / 20 * cos ?M" by (intro denom_pos) simp_all
  have "19 / 20 * sin ?M \<le> 61 / 20 * (1 - 19 / 20 * cos ?M)"
    using M spi by (intro newton_ratio_bound) simp_all
  then have "19 / 20 * sin ?M / (1 - 19 / 20 * cos ?M) \<le> 61 / 20"
    using d by (simp add: field_simps)
  then show ?thesis unfolding first_step_formula using Mh pi_bounds by simp
qed

lemma newton_step_le_rule:
  fixes M U v su cl :: real
  assumes "sin U \<le> su" "cl \<le> cos U" "v \<le> U"
    and "(U - v) * (1 - 19 / 20 * cl) \<le> U - 19 / 20 * su - M"
  shows "newton_step M (19 / 20) U \<le> v"
proof -
  have d: "0 < 1 - 19 / 20 * cos U" by (intro denom_pos) simp_all
  have "(U - v) * (1 - 19 / 20 * cos U) \<le> (U - v) * (1 - 19 / 20 * cl)"
    using assms by (intro mult_left_mono) simp_all
  also have "\<dots> \<le> U - 19 / 20 * su - M" by (rule assms(4))
  also have "\<dots> \<le> U - 19 / 20 * sin U - M" using assms by simp
  finally have "U - v \<le> (U - 19 / 20 * sin U - M) / (1 - 19 / 20 * cos U)"
    using d by (simp add: field_simps)
  then show ?thesis unfolding newton_step_def by simp
qed

lemma first_step_crude:
  fixes M ml mh S Cc v1 :: real
  assumes "0 \<le> ml" "ml \<le> M" "M \<le> mh" "mh \<le> 157 / 100"
    and "sin mh \<le> S" "cos ml \<le> Cc" "19 / 20 * Cc < 1"
    and "mh + 19 / 20 * S / (1 - 19 / 20 * Cc) \<le> v1"
  shows "newton_step M (19 / 20) M \<le> v1"
proof -
  have mh: "mh \<le> pi / 2" using assms pi_bounds by simp
  have "sin M \<le> sin mh" using assms mh by (intro sin_monotone_2pi_le) simp_all
  then have s: "sin M \<le> S" using assms by simp
  have s0: "0 \<le> sin M" using assms mh pi_bounds by (intro sin_ge_zero) simp_all
  have "cos M \<le> cos ml" using assms mh pi_bounds by (intro cos_monotone_0_pi_le) simp_all
  then have c: "cos M \<le> Cc" using assms by simp
  have d: "0 < 1 - 19 / 20 * Cc" using assms by simp
  have "19 / 20 * sin M / (1 - 19 / 20 * cos M) \<le> 19 / 20 * S / (1 - 19 / 20 * Cc)"
    using s s0 c d by (intro frac_le) simp_all
  then show ?thesis unfolding first_step_formula using assms by simp
qed

lemma zone_near:
  assumes e: "0 \<le> e" "e \<le> 19 / 20"
    and s: "0 \<le> a" "a \<le> s" "s \<le> b" "b \<le> 158 / 100"
    and first: "min (newton_step (s - 19 / 20 * sin s) (19 / 20) (s - 19 / 20 * sin s)) pi \<le> va"
    and va: "b \<le> va" "va \<le> pi"
    and mh: "b - 19 / 20 * sin b \<le> mh"
    and step2: "newton_step mh (19 / 20) va \<le> vb"
    and step3: "newton_step mh (19 / 20) vb \<le> vc"
    and vb: "vb \<le> pi"
    and close: "vc - a \<le> 27 / 100"
  shows "\<bar>solveKepler (s - e * sin s) e - e * sin (solveKepler (s - e * sin s) e)
          - (s - e * sin s)\<bar> < 1 / 10 ^ 6"
proof -
  let ?M = "s - e * sin s" and ?M' = "s - 19 / 20 * sin s" and ?Mb = "b - 19 / 20 * sin b"
  define E1 where "E1 = newton_step ?M e ?M"
  define E2 where "E2 = newton_step ?M e E1"
  define E3 where "E3 = newton_step ?M e E2"
  define F where "F = newton_step ?M' (19 / 20) ?M'"
  define T1 where "T1 = newton_step ?Mb (19 / 20) va"
  have s0: "0 \<le> s" and b0: "0 \<le> b" using s by simp_all
  have bpi: "b \<le> pi" and spi: "s \<le> pi" and s158: "s \<le> 158 / 100"
    using s pi_bounds by simp_all
  have e1: "e < 1" using e by simp
  have A1: "s \<le> E1" unfolding E1_def using e1 e s0 spi by (intro first_step_ge) simp_all
  have A2: "E1 \<le> F" unfolding E1_def F_def using e s0 spi by (intro first_step_mono_e) simp_all
  have A3: "E1 \<le> pi + 56 / 100"
    using A2 first_step_bound [OF s0 s158] unfolding F_def by simp
  have "min E1 pi \<le> min F pi" using A2 by (simp add: min_le_iff_disj)
  then have A4: "min E1 pi \<le> va" using first unfolding F_def by linarith
  have T1: "b \<le> T1" "T1 \<le> va" unfolding T1_def
    using newton_step_between [of "19 / 20" b va] b0 va by simp_all
  have "T1 \<le> newton_step mh (19 / 20) va" unfolding T1_def
    using mh by (intro newton_step_mono_M) simp_all
  then have T1v: "T1 \<le> vb" using step2 by simp
  then have bv2: "b \<le> vb" using T1 by simp
  have B: "s \<le> E2 \<and> E2 \<le> T1"
  proof (cases "E1 \<le> pi")
    case True
    then have "E1 \<le> va" using A4 by simp
    then have "E2 \<le> T1" unfolding E2_def T1_def
      using e s0 s va A1 by (intro newton_step_upper_bound) simp_all
    moreover have "s \<le> E2" unfolding E2_def
      using e1 e s0 A1 True by (intro newton_step_between) simp_all
    ultimately show ?thesis by simp
  next
    case False
    then have big: "pi \<le> E1" by simp
    then have "pi \<le> va" using A4 by simp
    have "E2 \<le> newton_step ?M e pi" unfolding E2_def
      using e1 e spi big A3 pi_bounds by (intro newton_step_antimono_beyond) simp_all
    also have "\<dots> \<le> T1" unfolding T1_def
      using e s0 s va spi \<open>pi \<le> va\<close> by (intro newton_step_upper_bound) simp_all
    finally have "E2 \<le> T1" .
    moreover have "0 \<le> chord_gap s E1" using s0 s158 big A3 by (intro chord_gap_nonneg_beyond) simp_all
    then have "s \<le> E2" unfolding E2_def using e1 e by (intro newton_step_ge) simp_all
    ultimately show ?thesis by simp
  qed
  then have E2: "s \<le> E2" "E2 \<le> vb" "E2 \<le> pi" using T1v vb by simp_all
  have E3: "s \<le> E3" "E3 \<le> E2" unfolding E3_def
    using newton_step_between [of e s E2] e1 e s0 E2 by simp_all
  have "E3 \<le> newton_step ?Mb (19 / 20) vb" unfolding E3_def
    using e s0 s bv2 vb E2 by (intro newton_step_upper_bound) simp_all
  also have "\<dots> \<le> newton_step mh (19 / 20) vb"
    using mh by (intro newton_step_mono_M) simp_all
  also have "\<dots> \<le> vc" by (rule step3)
  finally have "E3 - s \<le> 27 / 100" using close s by simp
  moreover have "E3 \<le> pi" using E3 E2 by simp
  ultimately have "\<bar>solveKepler_loop 4 ?M e E3
          - e * sin (solveKepler_loop 4 ?M e E3) - ?M\<bar> < 1 / 10 ^ 6"
    using e s0 E3 by (intro kepler_tail) simp_all
  then show ?thesis unfolding solveKepler_unfold3 E3_def E2_def E1_def .
qed

subsection \<open>The intervals of the lower range\<close>

text \<open>
  Thirteen intervals cover the range of \<open>s\<close> from 0 to 1.58. On each, enclosures of sine
  and cosine at rational points bound the third iterate within 0.27 of \<open>s\<close>.
\<close>

lemma near1_sin_b: "1197 / 10000 \<le> sin (3 / 25 :: real)"
  by (rule sin_ge_rule) (simp_all add: sin_poly_def taylor_rem_def power_divide)

lemma near1_sin_v2: "sin (61 / 500 :: real) \<le> 1217 / 10000"
  by (rule sin_le_rule) (simp_all add: sin_poly_def taylor_rem_def power_divide)

lemma near1_cos_v2: "397 / 400 \<le> cos (61 / 500 :: real)"
  by (rule cos_ge_rule) (simp_all add: cos_poly_def taylor_rem_def power_divide)

lemma near1_sin_mh: "sin (63 / 10000 :: real) \<le> 63 / 10000"
  by (rule sin_le_rule) (simp_all add: sin_poly_def taylor_rem_def power_divide)

lemma near1_sin_v1: "sin (63 / 500 :: real) \<le> 1257 / 10000"
  by (rule sin_le_rule) (simp_all add: sin_poly_def taylor_rem_def power_divide)

lemma near1_cos_v1: "124 / 125 \<le> cos (63 / 500 :: real)"
  by (rule cos_ge_rule) (simp_all add: cos_poly_def taylor_rem_def power_divide)

lemma zone_near1:
  assumes "0 \<le> e" "e \<le> 19 / 20" "0 \<le> s" "s \<le> 3 / 25"
  shows "\<bar>solveKepler (s - e * sin s) e - e * sin (solveKepler (s - e * sin s) e)
          - (s - e * sin s)\<bar> < 1 / 10 ^ 6"
proof (rule zone_near [where a = "0" and b = "3 / 25" and va = "63 / 500" and vb = "61 / 500"
      and vc = "121 / 1000" and mh = "63 / 10000"])
  show "0 \<le> e" "e \<le> 19 / 20" "0 \<le> s" "s \<le> 3 / 25" by fact+
  show "(0::real) \<le> 0" "(3 / 25 :: real) \<le> 158 / 100" "(121 / 1000 :: real) - 0 \<le> 27 / 100"
    by simp_all
  show mh: "3 / 25 - 19 / 20 * sin (3 / 25 :: real) \<le> 63 / 10000"
    using near1_sin_b by simp
  show "(61 / 500 :: real) \<le> pi" using pi_bounds by simp
  show "min (newton_step (s - 19 / 20 * sin s) (19 / 20) (s - 19 / 20 * sin s)) pi \<le> 63 / 500"
  proof -
    have "s \<le> pi" using assms pi_bounds by simp
    then have lo: "0 \<le> s - 19 / 20 * sin s"
      using mean_anomaly_bounds(1) [of "19 / 20" "19 / 20" s] assms by simp
    have "s - 19 / 20 * sin s \<le> 3 / 25 - 19 / 20 * sin (3 / 25 :: real)"
      using residual_bounds(1) [of "19 / 20" s "3 / 25"] assms by simp
    then have hi: "s - 19 / 20 * sin s \<le> 63 / 10000" using near1_sin_b by simp
    have "newton_step (s - 19 / 20 * sin s) (19 / 20) (s - 19 / 20 * sin s) \<le> 63 / 500"
      using lo hi near1_sin_mh cos_le_one
      by (intro first_step_crude [where ml = "0" and mh = "63 / 10000" and S = "63 / 10000" and Cc = "1"])
        simp_all
    then show ?thesis by (simp add: min_le_iff_disj)
  qed
  show "(3 / 25 :: real) \<le> 63 / 500" "(63 / 500 :: real) \<le> pi" using pi_bounds by simp_all
  show "newton_step (63 / 10000 :: real) (19 / 20) (63 / 500) \<le> 61 / 500"
    using near1_sin_v1 near1_cos_v1
    by (intro newton_step_le_rule [where su = "1257 / 10000" and cl = "124 / 125"]) simp_all
  show "newton_step (63 / 10000 :: real) (19 / 20) (61 / 500) \<le> 121 / 1000"
    using near1_sin_v2 near1_cos_v2
    by (intro newton_step_le_rule [where su = "1217 / 10000" and cl = "397 / 400"]) simp_all
qed

lemma near2_sin_b: "279 / 2000 \<le> sin (7 / 50 :: real)"
  by (rule sin_ge_rule) (simp_all add: sin_poly_def taylor_rem_def power_divide)

lemma near2_sin_v2: "sin (143 / 1000 :: real) \<le> 713 / 5000"
  by (rule sin_le_rule) (simp_all add: sin_poly_def taylor_rem_def power_divide)

lemma near2_cos_v2: "9897 / 10000 \<le> cos (143 / 1000 :: real)"
  by (rule cos_ge_rule) (simp_all add: cos_poly_def taylor_rem_def power_divide)

lemma near2_sin_a: "sin (3 / 25 :: real) \<le> 599 / 5000"
  by (rule sin_le_rule) (simp_all add: sin_poly_def taylor_rem_def power_divide)

lemma near2_sin_mh: "sin (3 / 400 :: real) \<le> 3 / 400"
  by (rule sin_le_rule) (simp_all add: sin_poly_def taylor_rem_def power_divide)

lemma near2_sin_v1: "sin (3 / 20 :: real) \<le> 299 / 2000"
  by (rule sin_le_rule) (simp_all add: sin_poly_def taylor_rem_def power_divide)

lemma near2_cos_v1: "9887 / 10000 \<le> cos (3 / 20 :: real)"
  by (rule cos_ge_rule) (simp_all add: cos_poly_def taylor_rem_def power_divide)

lemma zone_near2:
  assumes "0 \<le> e" "e \<le> 19 / 20" "3 / 25 \<le> s" "s \<le> 7 / 50"
  shows "\<bar>solveKepler (s - e * sin s) e - e * sin (solveKepler (s - e * sin s) e)
          - (s - e * sin s)\<bar> < 1 / 10 ^ 6"
proof (rule zone_near [where a = "3 / 25" and b = "7 / 50" and va = "3 / 20" and vb = "143 / 1000"
      and vc = "143 / 1000" and mh = "3 / 400"])
  show "0 \<le> e" "e \<le> 19 / 20" "3 / 25 \<le> s" "s \<le> 7 / 50" by fact+
  show "(0::real) \<le> 3 / 25" "(7 / 50 :: real) \<le> 158 / 100" "(143 / 1000 :: real) - 3 / 25 \<le> 27 / 100"
    by simp_all
  show mh: "7 / 50 - 19 / 20 * sin (7 / 50 :: real) \<le> 3 / 400"
    using near2_sin_b by simp
  show "(143 / 1000 :: real) \<le> pi" using pi_bounds by simp
  show "min (newton_step (s - 19 / 20 * sin s) (19 / 20) (s - 19 / 20 * sin s)) pi \<le> 3 / 20"
  proof -
    have "3 / 25 - 19 / 20 * sin (3 / 25 :: real) \<le> s - 19 / 20 * sin s"
      using residual_bounds(1) [of "19 / 20" "3 / 25" s] assms by simp
    then have lo: "61 / 10000 \<le> s - 19 / 20 * sin s" using near2_sin_a by simp
    have "s - 19 / 20 * sin s \<le> 7 / 50 - 19 / 20 * sin (7 / 50 :: real)"
      using residual_bounds(1) [of "19 / 20" s "7 / 50"] assms by simp
    then have hi: "s - 19 / 20 * sin s \<le> 3 / 400" using near2_sin_b by simp
    have "newton_step (s - 19 / 20 * sin s) (19 / 20) (s - 19 / 20 * sin s) \<le> 3 / 20"
      using lo hi near2_sin_mh cos_le_one
      by (intro first_step_crude [where ml = "61 / 10000" and mh = "3 / 400" and S = "3 / 400" and Cc = "1"])
        simp_all
    then show ?thesis by (simp add: min_le_iff_disj)
  qed
  show "(7 / 50 :: real) \<le> 3 / 20" "(3 / 20 :: real) \<le> pi" using pi_bounds by simp_all
  show "newton_step (3 / 400 :: real) (19 / 20) (3 / 20) \<le> 143 / 1000"
    using near2_sin_v1 near2_cos_v1
    by (intro newton_step_le_rule [where su = "299 / 2000" and cl = "9887 / 10000"]) simp_all
  show "newton_step (3 / 400 :: real) (19 / 20) (143 / 1000) \<le> 143 / 1000"
    using near2_sin_v2 near2_cos_v2
    by (intro newton_step_le_rule [where su = "713 / 5000" and cl = "9897 / 10000"]) simp_all
qed

lemma near3_sin_b: "179 / 1000 \<le> sin (9 / 50 :: real)"
  by (rule sin_ge_rule) (simp_all add: sin_poly_def taylor_rem_def power_divide)

lemma near3_sin_v2: "sin (183 / 1000 :: real) \<le> 91 / 500"
  by (rule sin_le_rule) (simp_all add: sin_poly_def taylor_rem_def power_divide)

lemma near3_cos_v2: "9833 / 10000 \<le> cos (183 / 1000 :: real)"
  by (rule cos_ge_rule) (simp_all add: cos_poly_def taylor_rem_def power_divide)

lemma near3_sin_a: "sin (7 / 50 :: real) \<le> 349 / 2500"
  by (rule sin_le_rule) (simp_all add: sin_poly_def taylor_rem_def power_divide)

lemma near3_sin_mh: "sin (1 / 100 :: real) \<le> 1 / 100"
  by (rule sin_le_rule) (simp_all add: sin_poly_def taylor_rem_def power_divide)

lemma near3_sin_v1: "sin (1 / 5 :: real) \<le> 1987 / 10000"
  by (rule sin_le_rule) (simp_all add: sin_poly_def taylor_rem_def power_divide)

lemma near3_cos_v1: "49 / 50 \<le> cos (1 / 5 :: real)"
  by (rule cos_ge_rule) (simp_all add: cos_poly_def taylor_rem_def power_divide)

lemma zone_near3:
  assumes "0 \<le> e" "e \<le> 19 / 20" "7 / 50 \<le> s" "s \<le> 9 / 50"
  shows "\<bar>solveKepler (s - e * sin s) e - e * sin (solveKepler (s - e * sin s) e)
          - (s - e * sin s)\<bar> < 1 / 10 ^ 6"
proof (rule zone_near [where a = "7 / 50" and b = "9 / 50" and va = "1 / 5" and vb = "183 / 1000"
      and vc = "91 / 500" and mh = "1 / 100"])
  show "0 \<le> e" "e \<le> 19 / 20" "7 / 50 \<le> s" "s \<le> 9 / 50" by fact+
  show "(0::real) \<le> 7 / 50" "(9 / 50 :: real) \<le> 158 / 100" "(91 / 500 :: real) - 7 / 50 \<le> 27 / 100"
    by simp_all
  show mh: "9 / 50 - 19 / 20 * sin (9 / 50 :: real) \<le> 1 / 100"
    using near3_sin_b by simp
  show "(183 / 1000 :: real) \<le> pi" using pi_bounds by simp
  show "min (newton_step (s - 19 / 20 * sin s) (19 / 20) (s - 19 / 20 * sin s)) pi \<le> 1 / 5"
  proof -
    have "7 / 50 - 19 / 20 * sin (7 / 50 :: real) \<le> s - 19 / 20 * sin s"
      using residual_bounds(1) [of "19 / 20" "7 / 50" s] assms by simp
    then have lo: "73 / 10000 \<le> s - 19 / 20 * sin s" using near3_sin_a by simp
    have "s - 19 / 20 * sin s \<le> 9 / 50 - 19 / 20 * sin (9 / 50 :: real)"
      using residual_bounds(1) [of "19 / 20" s "9 / 50"] assms by simp
    then have hi: "s - 19 / 20 * sin s \<le> 1 / 100" using near3_sin_b by simp
    have "newton_step (s - 19 / 20 * sin s) (19 / 20) (s - 19 / 20 * sin s) \<le> 1 / 5"
      using lo hi near3_sin_mh cos_le_one
      by (intro first_step_crude [where ml = "73 / 10000" and mh = "1 / 100" and S = "1 / 100" and Cc = "1"])
        simp_all
    then show ?thesis by (simp add: min_le_iff_disj)
  qed
  show "(9 / 50 :: real) \<le> 1 / 5" "(1 / 5 :: real) \<le> pi" using pi_bounds by simp_all
  show "newton_step (1 / 100 :: real) (19 / 20) (1 / 5) \<le> 183 / 1000"
    using near3_sin_v1 near3_cos_v1
    by (intro newton_step_le_rule [where su = "1987 / 10000" and cl = "49 / 50"]) simp_all
  show "newton_step (1 / 100 :: real) (19 / 20) (183 / 1000) \<le> 91 / 500"
    using near3_sin_v2 near3_cos_v2
    by (intro newton_step_le_rule [where su = "91 / 500" and cl = "9833 / 10000"]) simp_all
qed

lemma near4_sin_b: "4259 / 10000 \<le> sin (11 / 25 :: real)"
  by (rule sin_ge_rule) (simp_all add: sin_poly_def taylor_rem_def power_divide)

lemma near4_sin_v2: "sin (64 / 125 :: real) \<le> 49 / 100"
  by (rule sin_le_rule) (simp_all add: sin_poly_def taylor_rem_def power_divide)

lemma near4_cos_v2: "8717 / 10000 \<le> cos (64 / 125 :: real)"
  by (rule cos_ge_rule) (simp_all add: cos_poly_def taylor_rem_def power_divide)

lemma near4_sin_a: "sin (9 / 50 :: real) \<le> 1791 / 10000"
  by (rule sin_le_rule) (simp_all add: sin_poly_def taylor_rem_def power_divide)

lemma near4_sin_mh: "sin (177 / 5000 :: real) \<le> 177 / 5000"
  by (rule sin_le_rule) (simp_all add: sin_poly_def taylor_rem_def power_divide)

lemma near4_sin_v1: "sin (177 / 250 :: real) \<le> 813 / 1250"
  by (rule sin_le_rule) (simp_all add: sin_poly_def taylor_rem_def power_divide)

lemma near4_cos_v1: "1899 / 2500 \<le> cos (177 / 250 :: real)"
  by (rule cos_ge_rule) (simp_all add: cos_poly_def taylor_rem_def power_divide)

lemma zone_near4:
  assumes "0 \<le> e" "e \<le> 19 / 20" "9 / 50 \<le> s" "s \<le> 11 / 25"
  shows "\<bar>solveKepler (s - e * sin s) e - e * sin (solveKepler (s - e * sin s) e)
          - (s - e * sin s)\<bar> < 1 / 10 ^ 6"
proof (rule zone_near [where a = "9 / 50" and b = "11 / 25" and va = "177 / 250" and vb = "64 / 125"
      and vc = "56 / 125" and mh = "177 / 5000"])
  show "0 \<le> e" "e \<le> 19 / 20" "9 / 50 \<le> s" "s \<le> 11 / 25" by fact+
  show "(0::real) \<le> 9 / 50" "(11 / 25 :: real) \<le> 158 / 100" "(56 / 125 :: real) - 9 / 50 \<le> 27 / 100"
    by simp_all
  show mh: "11 / 25 - 19 / 20 * sin (11 / 25 :: real) \<le> 177 / 5000"
    using near4_sin_b by simp
  show "(64 / 125 :: real) \<le> pi" using pi_bounds by simp
  show "min (newton_step (s - 19 / 20 * sin s) (19 / 20) (s - 19 / 20 * sin s)) pi \<le> 177 / 250"
  proof -
    have "9 / 50 - 19 / 20 * sin (9 / 50 :: real) \<le> s - 19 / 20 * sin s"
      using residual_bounds(1) [of "19 / 20" "9 / 50" s] assms by simp
    then have lo: "49 / 5000 \<le> s - 19 / 20 * sin s" using near4_sin_a by simp
    have "s - 19 / 20 * sin s \<le> 11 / 25 - 19 / 20 * sin (11 / 25 :: real)"
      using residual_bounds(1) [of "19 / 20" s "11 / 25"] assms by simp
    then have hi: "s - 19 / 20 * sin s \<le> 177 / 5000" using near4_sin_b by simp
    have "newton_step (s - 19 / 20 * sin s) (19 / 20) (s - 19 / 20 * sin s) \<le> 177 / 250"
      using lo hi near4_sin_mh cos_le_one
      by (intro first_step_crude [where ml = "49 / 5000" and mh = "177 / 5000" and S = "177 / 5000" and Cc = "1"])
        simp_all
    then show ?thesis by (simp add: min_le_iff_disj)
  qed
  show "(11 / 25 :: real) \<le> 177 / 250" "(177 / 250 :: real) \<le> pi" using pi_bounds by simp_all
  show "newton_step (177 / 5000 :: real) (19 / 20) (177 / 250) \<le> 64 / 125"
    using near4_sin_v1 near4_cos_v1
    by (intro newton_step_le_rule [where su = "813 / 1250" and cl = "1899 / 2500"]) simp_all
  show "newton_step (177 / 5000 :: real) (19 / 20) (64 / 125) \<le> 56 / 125"
    using near4_sin_v2 near4_cos_v2
    by (intro newton_step_le_rule [where su = "49 / 100" and cl = "8717 / 10000"]) simp_all
qed

lemma near5_sin_b: "5891 / 10000 \<le> sin (63 / 100 :: real)"
  by (rule sin_ge_rule) (simp_all add: sin_poly_def taylor_rem_def power_divide)

lemma near5_sin_v2: "sin (116 / 125 :: real) \<le> 1601 / 2000"
  by (rule sin_le_rule) (simp_all add: sin_poly_def taylor_rem_def power_divide)

lemma near5_cos_v2: "2997 / 5000 \<le> cos (116 / 125 :: real)"
  by (rule cos_ge_rule) (simp_all add: cos_poly_def taylor_rem_def power_divide)

lemma near5_sin_a: "sin (11 / 25 :: real) \<le> 213 / 500"
  by (rule sin_le_rule) (simp_all add: sin_poly_def taylor_rem_def power_divide)

lemma near5_sin_mh: "sin (44 / 625 :: real) \<le> 44 / 625"
  by (rule sin_le_rule) (simp_all add: sin_poly_def taylor_rem_def power_divide)

lemma near5_cos_ml: "cos (353 / 10000 :: real) \<le> 4997 / 5000"
  by (rule cos_le_rule) (simp_all add: cos_poly_def taylor_rem_def power_divide)

lemma near5_sin_v1: "sin (1393 / 1000 :: real) \<le> 9843 / 10000"
  by (rule sin_le_rule) (simp_all add: sin_poly_def taylor_rem_def power_divide)

lemma near5_cos_v1: "221 / 1250 \<le> cos (1393 / 1000 :: real)"
  by (rule cos_ge_rule) (simp_all add: cos_poly_def taylor_rem_def power_divide)

lemma zone_near5:
  assumes "0 \<le> e" "e \<le> 19 / 20" "11 / 25 \<le> s" "s \<le> 63 / 100"
  shows "\<bar>solveKepler (s - e * sin s) e - e * sin (solveKepler (s - e * sin s) e)
          - (s - e * sin s)\<bar> < 1 / 10 ^ 6"
proof (rule zone_near [where a = "11 / 25" and b = "63 / 100" and va = "1393 / 1000" and vb = "116 / 125"
      and vc = "703 / 1000" and mh = "44 / 625"])
  show "0 \<le> e" "e \<le> 19 / 20" "11 / 25 \<le> s" "s \<le> 63 / 100" by fact+
  show "(0::real) \<le> 11 / 25" "(63 / 100 :: real) \<le> 158 / 100" "(703 / 1000 :: real) - 11 / 25 \<le> 27 / 100"
    by simp_all
  show mh: "63 / 100 - 19 / 20 * sin (63 / 100 :: real) \<le> 44 / 625"
    using near5_sin_b by simp
  show "(116 / 125 :: real) \<le> pi" using pi_bounds by simp
  show "min (newton_step (s - 19 / 20 * sin s) (19 / 20) (s - 19 / 20 * sin s)) pi \<le> 1393 / 1000"
  proof -
    have "11 / 25 - 19 / 20 * sin (11 / 25 :: real) \<le> s - 19 / 20 * sin s"
      using residual_bounds(1) [of "19 / 20" "11 / 25" s] assms by simp
    then have lo: "353 / 10000 \<le> s - 19 / 20 * sin s" using near5_sin_a by simp
    have "s - 19 / 20 * sin s \<le> 63 / 100 - 19 / 20 * sin (63 / 100 :: real)"
      using residual_bounds(1) [of "19 / 20" s "63 / 100"] assms by simp
    then have hi: "s - 19 / 20 * sin s \<le> 44 / 625" using near5_sin_b by simp
    have "newton_step (s - 19 / 20 * sin s) (19 / 20) (s - 19 / 20 * sin s) \<le> 1393 / 1000"
      using lo hi near5_sin_mh near5_cos_ml
      by (intro first_step_crude [where ml = "353 / 10000" and mh = "44 / 625" and S = "44 / 625" and Cc = "4997 / 5000"])
        simp_all
    then show ?thesis by (simp add: min_le_iff_disj)
  qed
  show "(63 / 100 :: real) \<le> 1393 / 1000" "(1393 / 1000 :: real) \<le> pi" using pi_bounds by simp_all
  show "newton_step (44 / 625 :: real) (19 / 20) (1393 / 1000) \<le> 116 / 125"
    using near5_sin_v1 near5_cos_v1
    by (intro newton_step_le_rule [where su = "9843 / 10000" and cl = "221 / 1250"]) simp_all
  show "newton_step (44 / 625 :: real) (19 / 20) (116 / 125) \<le> 703 / 1000"
    using near5_sin_v2 near5_cos_v2
    by (intro newton_step_le_rule [where su = "1601 / 2000" and cl = "2997 / 5000"]) simp_all
qed

lemma near6_sin_b: "426 / 625 \<le> sin (3 / 4 :: real)"
  by (rule sin_ge_rule) (simp_all add: sin_poly_def taylor_rem_def power_divide)

lemma near6_sin_v2: "sin (1243 / 1000 :: real) \<le> 2367 / 2500"
  by (rule sin_le_rule) (simp_all add: sin_poly_def taylor_rem_def power_divide)

lemma near6_cos_v2: "3219 / 10000 \<le> cos (1243 / 1000 :: real)"
  by (rule cos_ge_rule) (simp_all add: cos_poly_def taylor_rem_def power_divide)

lemma near6_sin_a: "sin (63 / 100 :: real) \<le> 1473 / 2500"
  by (rule sin_le_rule) (simp_all add: sin_poly_def taylor_rem_def power_divide)

lemma near6_sin_mh: "sin (41 / 400 :: real) \<le> 64 / 625"
  by (rule sin_le_rule) (simp_all add: sin_poly_def taylor_rem_def power_divide)

lemma near6_cos_ml: "cos (351 / 5000 :: real) \<le> 1247 / 1250"
  by (rule cos_le_rule) (simp_all add: cos_poly_def taylor_rem_def power_divide)

lemma near6_sin_v1: "sin (491 / 250 :: real) \<le> 9237 / 10000"
  by (rule sin_le_rule) (simp_all add: sin_poly_def taylor_rem_def power_divide)

lemma near6_cos_v1: "- 479 / 1250 \<le> cos (491 / 250 :: real)"
  by (rule cos_ge_rule) (simp_all add: cos_poly_def taylor_rem_def power_divide)

lemma zone_near6:
  assumes "0 \<le> e" "e \<le> 19 / 20" "63 / 100 \<le> s" "s \<le> 3 / 4"
  shows "\<bar>solveKepler (s - e * sin s) e - e * sin (solveKepler (s - e * sin s) e)
          - (s - e * sin s)\<bar> < 1 / 10 ^ 6"
proof (rule zone_near [where a = "63 / 100" and b = "3 / 4" and va = "491 / 250" and vb = "1243 / 1000"
      and vc = "112 / 125" and mh = "41 / 400"])
  show "0 \<le> e" "e \<le> 19 / 20" "63 / 100 \<le> s" "s \<le> 3 / 4" by fact+
  show "(0::real) \<le> 63 / 100" "(3 / 4 :: real) \<le> 158 / 100" "(112 / 125 :: real) - 63 / 100 \<le> 27 / 100"
    by simp_all
  show mh: "3 / 4 - 19 / 20 * sin (3 / 4 :: real) \<le> 41 / 400"
    using near6_sin_b by simp
  show "(1243 / 1000 :: real) \<le> pi" using pi_bounds by simp
  show "min (newton_step (s - 19 / 20 * sin s) (19 / 20) (s - 19 / 20 * sin s)) pi \<le> 491 / 250"
  proof -
    have "63 / 100 - 19 / 20 * sin (63 / 100 :: real) \<le> s - 19 / 20 * sin s"
      using residual_bounds(1) [of "19 / 20" "63 / 100" s] assms by simp
    then have lo: "351 / 5000 \<le> s - 19 / 20 * sin s" using near6_sin_a by simp
    have "s - 19 / 20 * sin s \<le> 3 / 4 - 19 / 20 * sin (3 / 4 :: real)"
      using residual_bounds(1) [of "19 / 20" s "3 / 4"] assms by simp
    then have hi: "s - 19 / 20 * sin s \<le> 41 / 400" using near6_sin_b by simp
    have "newton_step (s - 19 / 20 * sin s) (19 / 20) (s - 19 / 20 * sin s) \<le> 491 / 250"
      using lo hi near6_sin_mh near6_cos_ml
      by (intro first_step_crude [where ml = "351 / 5000" and mh = "41 / 400" and S = "64 / 625" and Cc = "1247 / 1250"])
        simp_all
    then show ?thesis by (simp add: min_le_iff_disj)
  qed
  show "(3 / 4 :: real) \<le> 491 / 250" "(491 / 250 :: real) \<le> pi" using pi_bounds by simp_all
  show "newton_step (41 / 400 :: real) (19 / 20) (491 / 250) \<le> 1243 / 1000"
    using near6_sin_v1 near6_cos_v1
    by (intro newton_step_le_rule [where su = "9237 / 10000" and cl = "- 479 / 1250"]) simp_all
  show "newton_step (41 / 400 :: real) (19 / 20) (1243 / 1000) \<le> 112 / 125"
    using near6_sin_v2 near6_cos_v2
    by (intro newton_step_le_rule [where su = "2367 / 2500" and cl = "3219 / 10000"]) simp_all
qed

lemma near7_sin_b: "7379 / 10000 \<le> sin (83 / 100 :: real)"
  by (rule sin_ge_rule) (simp_all add: sin_poly_def taylor_rem_def power_divide)

lemma near7_sin_v2: "sin (713 / 500 :: real) \<le> 1237 / 1250"
  by (rule sin_le_rule) (simp_all add: sin_poly_def taylor_rem_def power_divide)

lemma near7_cos_v2: "721 / 5000 \<le> cos (713 / 500 :: real)"
  by (rule cos_ge_rule) (simp_all add: cos_poly_def taylor_rem_def power_divide)

lemma near7_sin_a: "sin (3 / 4 :: real) \<le> 6817 / 10000"
  by (rule sin_le_rule) (simp_all add: sin_poly_def taylor_rem_def power_divide)

lemma near7_sin_mh: "sin (129 / 1000 :: real) \<le> 1287 / 10000"
  by (rule sin_le_rule) (simp_all add: sin_poly_def taylor_rem_def power_divide)

lemma near7_cos_ml: "cos (1023 / 10000 :: real) \<le> 2487 / 2500"
  by (rule cos_le_rule) (simp_all add: cos_poly_def taylor_rem_def power_divide)

lemma near7_sin_v1: "sin (471 / 200 :: real) \<le> 177 / 250"
  by (rule sin_le_rule) (simp_all add: sin_poly_def taylor_rem_def power_divide)

lemma near7_cos_v1: "- 7063 / 10000 \<le> cos (471 / 200 :: real)"
  by (rule cos_ge_rule) (simp_all add: cos_poly_def taylor_rem_def power_divide)

lemma zone_near7:
  assumes "0 \<le> e" "e \<le> 19 / 20" "3 / 4 \<le> s" "s \<le> 83 / 100"
  shows "\<bar>solveKepler (s - e * sin s) e - e * sin (solveKepler (s - e * sin s) e)
          - (s - e * sin s)\<bar> < 1 / 10 ^ 6"
proof (rule zone_near [where a = "3 / 4" and b = "83 / 100" and va = "471 / 200" and vb = "713 / 500"
      and vc = "1013 / 1000" and mh = "129 / 1000"])
  show "0 \<le> e" "e \<le> 19 / 20" "3 / 4 \<le> s" "s \<le> 83 / 100" by fact+
  show "(0::real) \<le> 3 / 4" "(83 / 100 :: real) \<le> 158 / 100" "(1013 / 1000 :: real) - 3 / 4 \<le> 27 / 100"
    by simp_all
  show mh: "83 / 100 - 19 / 20 * sin (83 / 100 :: real) \<le> 129 / 1000"
    using near7_sin_b by simp
  show "(713 / 500 :: real) \<le> pi" using pi_bounds by simp
  show "min (newton_step (s - 19 / 20 * sin s) (19 / 20) (s - 19 / 20 * sin s)) pi \<le> 471 / 200"
  proof -
    have "3 / 4 - 19 / 20 * sin (3 / 4 :: real) \<le> s - 19 / 20 * sin s"
      using residual_bounds(1) [of "19 / 20" "3 / 4" s] assms by simp
    then have lo: "1023 / 10000 \<le> s - 19 / 20 * sin s" using near7_sin_a by simp
    have "s - 19 / 20 * sin s \<le> 83 / 100 - 19 / 20 * sin (83 / 100 :: real)"
      using residual_bounds(1) [of "19 / 20" s "83 / 100"] assms by simp
    then have hi: "s - 19 / 20 * sin s \<le> 129 / 1000" using near7_sin_b by simp
    have "newton_step (s - 19 / 20 * sin s) (19 / 20) (s - 19 / 20 * sin s) \<le> 471 / 200"
      using lo hi near7_sin_mh near7_cos_ml
      by (intro first_step_crude [where ml = "1023 / 10000" and mh = "129 / 1000" and S = "1287 / 10000" and Cc = "2487 / 2500"])
        simp_all
    then show ?thesis by (simp add: min_le_iff_disj)
  qed
  show "(83 / 100 :: real) \<le> 471 / 200" "(471 / 200 :: real) \<le> pi" using pi_bounds by simp_all
  show "newton_step (129 / 1000 :: real) (19 / 20) (471 / 200) \<le> 713 / 500"
    using near7_sin_v1 near7_cos_v1
    by (intro newton_step_le_rule [where su = "177 / 250" and cl = "- 7063 / 10000"]) simp_all
  show "newton_step (129 / 1000 :: real) (19 / 20) (713 / 500) \<le> 1013 / 1000"
    using near7_sin_v2 near7_cos_v2
    by (intro newton_step_le_rule [where su = "1237 / 1250" and cl = "721 / 5000"]) simp_all
qed

lemma near8_sin_b: "7833 / 10000 \<le> sin (9 / 10 :: real)"
  by (rule sin_ge_rule) (simp_all add: sin_poly_def taylor_rem_def power_divide)

lemma near8_sin_v2: "sin (1553 / 1000 :: real) \<le> 9999 / 10000"
  by (rule sin_le_rule) (simp_all add: sin_poly_def taylor_rem_def power_divide)

lemma near8_cos_v2: "177 / 10000 \<le> cos (1553 / 1000 :: real)"
  by (rule cos_ge_rule) (simp_all add: cos_poly_def taylor_rem_def power_divide)

lemma near8_sin_a: "sin (83 / 100 :: real) \<le> 369 / 500"
  by (rule sin_le_rule) (simp_all add: sin_poly_def taylor_rem_def power_divide)

lemma near8_sin_mh: "sin (1559 / 10000 :: real) \<le> 1553 / 10000"
  by (rule sin_le_rule) (simp_all add: sin_poly_def taylor_rem_def power_divide)

lemma near8_cos_ml: "cos (1289 / 10000 :: real) \<le> 4959 / 5000"
  by (rule cos_le_rule) (simp_all add: cos_poly_def taylor_rem_def power_divide)

lemma near8_sin_v1: "sin (2709 / 1000 :: real) \<le> 4193 / 10000"
  by (rule sin_le_rule) (simp_all add: sin_poly_def taylor_rem_def power_divide)

lemma near8_cos_v1: "- 9079 / 10000 \<le> cos (2709 / 1000 :: real)"
  by (rule cos_ge_rule) (simp_all add: cos_poly_def taylor_rem_def power_divide)

lemma zone_near8:
  assumes "0 \<le> e" "e \<le> 19 / 20" "83 / 100 \<le> s" "s \<le> 9 / 10"
  shows "\<bar>solveKepler (s - e * sin s) e - e * sin (solveKepler (s - e * sin s) e)
          - (s - e * sin s)\<bar> < 1 / 10 ^ 6"
proof (rule zone_near [where a = "83 / 100" and b = "9 / 10" and va = "2709 / 1000" and vb = "1553 / 1000"
      and vc = "1099 / 1000" and mh = "1559 / 10000"])
  show "0 \<le> e" "e \<le> 19 / 20" "83 / 100 \<le> s" "s \<le> 9 / 10" by fact+
  show "(0::real) \<le> 83 / 100" "(9 / 10 :: real) \<le> 158 / 100" "(1099 / 1000 :: real) - 83 / 100 \<le> 27 / 100"
    by simp_all
  show mh: "9 / 10 - 19 / 20 * sin (9 / 10 :: real) \<le> 1559 / 10000"
    using near8_sin_b by simp
  show "(1553 / 1000 :: real) \<le> pi" using pi_bounds by simp
  show "min (newton_step (s - 19 / 20 * sin s) (19 / 20) (s - 19 / 20 * sin s)) pi \<le> 2709 / 1000"
  proof -
    have "83 / 100 - 19 / 20 * sin (83 / 100 :: real) \<le> s - 19 / 20 * sin s"
      using residual_bounds(1) [of "19 / 20" "83 / 100" s] assms by simp
    then have lo: "1289 / 10000 \<le> s - 19 / 20 * sin s" using near8_sin_a by simp
    have "s - 19 / 20 * sin s \<le> 9 / 10 - 19 / 20 * sin (9 / 10 :: real)"
      using residual_bounds(1) [of "19 / 20" s "9 / 10"] assms by simp
    then have hi: "s - 19 / 20 * sin s \<le> 1559 / 10000" using near8_sin_b by simp
    have "newton_step (s - 19 / 20 * sin s) (19 / 20) (s - 19 / 20 * sin s) \<le> 2709 / 1000"
      using lo hi near8_sin_mh near8_cos_ml
      by (intro first_step_crude [where ml = "1289 / 10000" and mh = "1559 / 10000" and S = "1553 / 10000" and Cc = "4959 / 5000"])
        simp_all
    then show ?thesis by (simp add: min_le_iff_disj)
  qed
  show "(9 / 10 :: real) \<le> 2709 / 1000" "(2709 / 1000 :: real) \<le> pi" using pi_bounds by simp_all
  show "newton_step (1559 / 10000 :: real) (19 / 20) (2709 / 1000) \<le> 1553 / 1000"
    using near8_sin_v1 near8_cos_v1
    by (intro newton_step_le_rule [where su = "4193 / 10000" and cl = "- 9079 / 10000"]) simp_all
  show "newton_step (1559 / 10000 :: real) (19 / 20) (1553 / 1000) \<le> 1099 / 1000"
    using near8_sin_v2 near8_cos_v2
    by (intro newton_step_le_rule [where su = "9999 / 10000" and cl = "177 / 10000"]) simp_all
qed

lemma near9_sin_b: "519 / 625 \<le> sin (49 / 50 :: real)"
  by (rule sin_ge_rule) (simp_all add: sin_poly_def taylor_rem_def power_divide)

lemma near9_sin_v2: "sin (1629 / 1000 :: real) \<le> 624 / 625"
  by (rule sin_le_rule) (simp_all add: sin_poly_def taylor_rem_def power_divide)

lemma near9_cos_v2: "- 291 / 5000 \<le> cos (1629 / 1000 :: real)"
  by (rule cos_ge_rule) (simp_all add: cos_poly_def taylor_rem_def power_divide)

lemma zone_near9:
  assumes "0 \<le> e" "e \<le> 19 / 20" "9 / 10 \<le> s" "s \<le> 49 / 50"
  shows "\<bar>solveKepler (s - e * sin s) e - e * sin (solveKepler (s - e * sin s) e)
          - (s - e * sin s)\<bar> < 1 / 10 ^ 6"
proof (rule zone_near [where a = "9 / 10" and b = "49 / 50" and va = pi and vb = "1629 / 1000"
      and vc = "583 / 500" and mh = "239 / 1250"])
  show "0 \<le> e" "e \<le> 19 / 20" "9 / 10 \<le> s" "s \<le> 49 / 50" by fact+
  show "(0::real) \<le> 9 / 10" "(49 / 50 :: real) \<le> 158 / 100" "(583 / 500 :: real) - 9 / 10 \<le> 27 / 100"
    by simp_all
  show mh: "49 / 50 - 19 / 20 * sin (49 / 50 :: real) \<le> 239 / 1250"
    using near9_sin_b by simp
  show "(1629 / 1000 :: real) \<le> pi" using pi_bounds by simp
  show "min (newton_step (s - 19 / 20 * sin s) (19 / 20) (s - 19 / 20 * sin s)) pi \<le> pi"
    by simp
  show "(49 / 50 :: real) \<le> pi" "pi \<le> pi" using pi_bounds by simp_all
  show "newton_step (239 / 1250 :: real) (19 / 20) pi \<le> 1629 / 1000"
    using pi_bounds by (intro newton_step_le_rule [where su = 0 and cl = "- 1"]) simp_all
  show "newton_step (239 / 1250 :: real) (19 / 20) (1629 / 1000) \<le> 583 / 500"
    using near9_sin_v2 near9_cos_v2
    by (intro newton_step_le_rule [where su = "624 / 625" and cl = "- 291 / 5000"]) simp_all
qed

lemma near10_sin_b: "9001 / 10000 \<le> sin (28 / 25 :: real)"
  by (rule sin_ge_rule) (simp_all add: sin_poly_def taylor_rem_def power_divide)

lemma near10_sin_v2: "sin (1667 / 1000 :: real) \<le> 4977 / 5000"
  by (rule sin_le_rule) (simp_all add: sin_poly_def taylor_rem_def power_divide)

lemma near10_cos_v2: "- 961 / 10000 \<le> cos (1667 / 1000 :: real)"
  by (rule cos_ge_rule) (simp_all add: cos_poly_def taylor_rem_def power_divide)

lemma zone_near10:
  assumes "0 \<le> e" "e \<le> 19 / 20" "49 / 50 \<le> s" "s \<le> 28 / 25"
  shows "\<bar>solveKepler (s - e * sin s) e - e * sin (solveKepler (s - e * sin s) e)
          - (s - e * sin s)\<bar> < 1 / 10 ^ 6"
proof (rule zone_near [where a = "49 / 50" and b = "28 / 25" and va = pi and vb = "1667 / 1000"
      and vc = "1249 / 1000" and mh = "53 / 200"])
  show "0 \<le> e" "e \<le> 19 / 20" "49 / 50 \<le> s" "s \<le> 28 / 25" by fact+
  show "(0::real) \<le> 49 / 50" "(28 / 25 :: real) \<le> 158 / 100" "(1249 / 1000 :: real) - 49 / 50 \<le> 27 / 100"
    by simp_all
  show mh: "28 / 25 - 19 / 20 * sin (28 / 25 :: real) \<le> 53 / 200"
    using near10_sin_b by simp
  show "(1667 / 1000 :: real) \<le> pi" using pi_bounds by simp
  show "min (newton_step (s - 19 / 20 * sin s) (19 / 20) (s - 19 / 20 * sin s)) pi \<le> pi"
    by simp
  show "(28 / 25 :: real) \<le> pi" "pi \<le> pi" using pi_bounds by simp_all
  show "newton_step (53 / 200 :: real) (19 / 20) pi \<le> 1667 / 1000"
    using pi_bounds by (intro newton_step_le_rule [where su = 0 and cl = "- 1"]) simp_all
  show "newton_step (53 / 200 :: real) (19 / 20) (1667 / 1000) \<le> 1249 / 1000"
    using near10_sin_v2 near10_cos_v2
    by (intro newton_step_le_rule [where su = "4977 / 5000" and cl = "- 961 / 10000"]) simp_all
qed

lemma near11_sin_b: "9661 / 10000 \<le> sin (131 / 100 :: real)"
  by (rule sin_ge_rule) (simp_all add: sin_poly_def taylor_rem_def power_divide)

lemma near11_sin_v2: "sin (433 / 250 :: real) \<le> 9871 / 10000"
  by (rule sin_le_rule) (simp_all add: sin_poly_def taylor_rem_def power_divide)

lemma near11_cos_v2: "- 803 / 5000 \<le> cos (433 / 250 :: real)"
  by (rule cos_ge_rule) (simp_all add: cos_poly_def taylor_rem_def power_divide)

lemma zone_near11:
  assumes "0 \<le> e" "e \<le> 19 / 20" "28 / 25 \<le> s" "s \<le> 131 / 100"
  shows "\<bar>solveKepler (s - e * sin s) e - e * sin (solveKepler (s - e * sin s) e)
          - (s - e * sin s)\<bar> < 1 / 10 ^ 6"
proof (rule zone_near [where a = "28 / 25" and b = "131 / 100" and va = pi and vb = "433 / 250"
      and vc = "173 / 125" and mh = "3923 / 10000"])
  show "0 \<le> e" "e \<le> 19 / 20" "28 / 25 \<le> s" "s \<le> 131 / 100" by fact+
  show "(0::real) \<le> 28 / 25" "(131 / 100 :: real) \<le> 158 / 100" "(173 / 125 :: real) - 28 / 25 \<le> 27 / 100"
    by simp_all
  show mh: "131 / 100 - 19 / 20 * sin (131 / 100 :: real) \<le> 3923 / 10000"
    using near11_sin_b by simp
  show "(433 / 250 :: real) \<le> pi" using pi_bounds by simp
  show "min (newton_step (s - 19 / 20 * sin s) (19 / 20) (s - 19 / 20 * sin s)) pi \<le> pi"
    by simp
  show "(131 / 100 :: real) \<le> pi" "pi \<le> pi" using pi_bounds by simp_all
  show "newton_step (3923 / 10000 :: real) (19 / 20) pi \<le> 433 / 250"
    using pi_bounds by (intro newton_step_le_rule [where su = 0 and cl = "- 1"]) simp_all
  show "newton_step (3923 / 10000 :: real) (19 / 20) (433 / 250) \<le> 173 / 125"
    using near11_sin_v2 near11_cos_v2
    by (intro newton_step_le_rule [where su = "9871 / 10000" and cl = "- 803 / 5000"]) simp_all
qed

lemma near12_sin_b: "1999 / 2000 \<le> sin (77 / 50 :: real)"
  by (rule sin_ge_rule) (simp_all add: sin_poly_def taylor_rem_def power_divide)

lemma near12_sin_v2: "sin (917 / 500 :: real) \<le> 1207 / 1250"
  by (rule sin_le_rule) (simp_all add: sin_poly_def taylor_rem_def power_divide)

lemma near12_cos_v2: "- 1301 / 5000 \<le> cos (917 / 500 :: real)"
  by (rule cos_ge_rule) (simp_all add: cos_poly_def taylor_rem_def power_divide)

lemma zone_near12:
  assumes "0 \<le> e" "e \<le> 19 / 20" "131 / 100 \<le> s" "s \<le> 77 / 50"
  shows "\<bar>solveKepler (s - e * sin s) e - e * sin (solveKepler (s - e * sin s) e)
          - (s - e * sin s)\<bar> < 1 / 10 ^ 6"
proof (rule zone_near [where a = "131 / 100" and b = "77 / 50" and va = pi and vb = "917 / 500"
      and vc = "1573 / 1000" and mh = "1181 / 2000"])
  show "0 \<le> e" "e \<le> 19 / 20" "131 / 100 \<le> s" "s \<le> 77 / 50" by fact+
  show "(0::real) \<le> 131 / 100" "(77 / 50 :: real) \<le> 158 / 100" "(1573 / 1000 :: real) - 131 / 100 \<le> 27 / 100"
    by simp_all
  show mh: "77 / 50 - 19 / 20 * sin (77 / 50 :: real) \<le> 1181 / 2000"
    using near12_sin_b by simp
  show "(917 / 500 :: real) \<le> pi" using pi_bounds by simp
  show "min (newton_step (s - 19 / 20 * sin s) (19 / 20) (s - 19 / 20 * sin s)) pi \<le> pi"
    by simp
  show "(77 / 50 :: real) \<le> pi" "pi \<le> pi" using pi_bounds by simp_all
  show "newton_step (1181 / 2000 :: real) (19 / 20) pi \<le> 917 / 500"
    using pi_bounds by (intro newton_step_le_rule [where su = 0 and cl = "- 1"]) simp_all
  show "newton_step (1181 / 2000 :: real) (19 / 20) (917 / 500) \<le> 1573 / 1000"
    using near12_sin_v2 near12_cos_v2
    by (intro newton_step_le_rule [where su = "1207 / 1250" and cl = "- 1301 / 5000"]) simp_all
qed

lemma near13_sin_b: "9999 / 10000 \<le> sin (79 / 50 :: real)"
  by (rule sin_ge_rule) (simp_all add: sin_poly_def taylor_rem_def power_divide)

lemma near13_sin_v2: "sin (927 / 500 :: real) \<le> 4801 / 5000"
  by (rule sin_le_rule) (simp_all add: sin_poly_def taylor_rem_def power_divide)

lemma near13_cos_v2: "- 559 / 2000 \<le> cos (927 / 500 :: real)"
  by (rule cos_ge_rule) (simp_all add: cos_poly_def taylor_rem_def power_divide)

lemma zone_near13:
  assumes "0 \<le> e" "e \<le> 19 / 20" "77 / 50 \<le> s" "s \<le> 79 / 50"
  shows "\<bar>solveKepler (s - e * sin s) e - e * sin (solveKepler (s - e * sin s) e)
          - (s - e * sin s)\<bar> < 1 / 10 ^ 6"
proof (rule zone_near [where a = "77 / 50" and b = "79 / 50" and va = pi and vb = "927 / 500"
      and vc = "201 / 125" and mh = "6301 / 10000"])
  show "0 \<le> e" "e \<le> 19 / 20" "77 / 50 \<le> s" "s \<le> 79 / 50" by fact+
  show "(0::real) \<le> 77 / 50" "(79 / 50 :: real) \<le> 158 / 100" "(201 / 125 :: real) - 77 / 50 \<le> 27 / 100"
    by simp_all
  show mh: "79 / 50 - 19 / 20 * sin (79 / 50 :: real) \<le> 6301 / 10000"
    using near13_sin_b by simp
  show "(927 / 500 :: real) \<le> pi" using pi_bounds by simp
  show "min (newton_step (s - 19 / 20 * sin s) (19 / 20) (s - 19 / 20 * sin s)) pi \<le> pi"
    by simp
  show "(79 / 50 :: real) \<le> pi" "pi \<le> pi" using pi_bounds by simp_all
  show "newton_step (6301 / 10000 :: real) (19 / 20) pi \<le> 927 / 500"
    using pi_bounds by (intro newton_step_le_rule [where su = 0 and cl = "- 1"]) simp_all
  show "newton_step (6301 / 10000 :: real) (19 / 20) (927 / 500) \<le> 201 / 125"
    using near13_sin_v2 near13_cos_v2
    by (intro newton_step_le_rule [where su = "4801 / 5000" and cl = "- 559 / 2000"]) simp_all
qed

subsection \<open>Symmetries and the bound of the residual\<close>

lemma newton_step_shift:
  "newton_step (M + 2 * pi * of_int k) e (E + 2 * pi * of_int k)
     = newton_step M e E + 2 * pi * of_int k"
proof -
  have "sin (E + 2 * pi * of_int k) = sin E" "cos (E + 2 * pi * of_int k) = cos E"
    by (simp_all add: sin_add cos_add)
  then show ?thesis unfolding newton_step_def by simp
qed

lemma solveKepler_loop_shift:
  "solveKepler_loop n (M + 2 * pi * of_int k) e (E + 2 * pi * of_int k)
     = solveKepler_loop n M e E + 2 * pi * of_int k"
  by (induction n arbitrary: E) (simp_all add: newton_step_shift)

lemma newton_step_neg: "newton_step (- M) e (- E) = - newton_step M e E"
proof -
  have "- E + e * sin E + M = - (E - e * sin E - M)" by simp
  then have "(- E + e * sin E + M) / (1 - e * cos E) = - ((E - e * sin E - M) / (1 - e * cos E))"
    by (simp only: minus_divide_left)
  then show ?thesis unfolding newton_step_def by simp
qed

lemma solveKepler_loop_neg:
  "solveKepler_loop n (- M) e (- E) = - solveKepler_loop n M e E"
  by (induction n arbitrary: E) (simp_all add: newton_step_neg)

lemma kepler_residual_shift:
  "kepler_residual (M + 2 * pi * of_int k) e = kepler_residual M e"
proof -
  have "solveKepler (M + 2 * pi * of_int k) e = solveKepler M e + 2 * pi * of_int k"
    unfolding solveKepler_def by (rule solveKepler_loop_shift)
  moreover have "sin (solveKepler M e + 2 * pi * of_int k) = sin (solveKepler M e)"
    by (simp add: sin_add)
  ultimately show ?thesis unfolding kepler_residual_def by simp
qed

lemma kepler_residual_neg: "kepler_residual (- M) e = - kepler_residual M e"
proof -
  have "solveKepler (- M) e = - solveKepler M e"
    unfolding solveKepler_def by (rule solveKepler_loop_neg)
  then show ?thesis unfolding kepler_residual_def by simp
qed

lemma eccentric_anomaly_exists:
  fixes e :: real
  assumes "0 \<le> e" "0 \<le> M" "M \<le> pi"
  shows "\<exists>s. 0 \<le> s \<and> s \<le> pi \<and> s - e * sin s = M"
proof (rule IVT')
  show "0 - e * sin 0 \<le> M" using assms by simp
  show "M \<le> pi - e * sin pi" using assms by simp
  show "(0::real) \<le> pi" by simp
  show "continuous_on {0..pi} (\<lambda>s. s - e * sin s)"
    by (intro continuous_intros)
qed

lemma reduce_mean_anomaly:
  fixes M :: real
  shows "\<exists>k::int. - pi \<le> M - 2 * pi * of_int k \<and> M - 2 * pi * of_int k \<le> pi"
proof -
  define k where "k = \<lfloor>(M + pi) / (2 * pi)\<rfloor>"
  have "of_int k \<le> (M + pi) / (2 * pi)" "(M + pi) / (2 * pi) < of_int k + 1"
    unfolding k_def by linarith+
  then have "of_int k * (2 * pi) \<le> M + pi" "M + pi < (of_int k + 1) * (2 * pi)"
    by (simp_all add: field_simps)
  then have "- pi \<le> M - 2 * pi * of_int k \<and> M - 2 * pi * of_int k \<le> pi"
    by (simp add: algebra_simps)
  then show ?thesis by blast
qed

lemma kepler_core:
  assumes "0 \<le> e" "e \<le> 19 / 20" "0 \<le> s" "s \<le> pi"
  shows "\<bar>kepler_residual (s - e * sin s) e\<bar> < 1 / 10 ^ 6" (is "?R")
proof -
  have c1: "?R" if "s \<le> 3 / 25"
    unfolding kepler_residual_def using assms that by (intro zone_near1) simp_all
  have c2: "?R" if "s \<le> 7 / 50"
  proof (cases "s \<le> 3 / 25")
    case True
    then show ?thesis by (rule c1)
  next
    case False
    then have "3 / 25 \<le> s" by simp
    then show ?thesis
      unfolding kepler_residual_def using assms(1,2) that by (intro zone_near2)
  qed
  have c3: "?R" if "s \<le> 9 / 50"
  proof (cases "s \<le> 7 / 50")
    case True
    then show ?thesis by (rule c2)
  next
    case False
    then have "7 / 50 \<le> s" by simp
    then show ?thesis
      unfolding kepler_residual_def using assms(1,2) that by (intro zone_near3)
  qed
  have c4: "?R" if "s \<le> 11 / 25"
  proof (cases "s \<le> 9 / 50")
    case True
    then show ?thesis by (rule c3)
  next
    case False
    then have "9 / 50 \<le> s" by simp
    then show ?thesis
      unfolding kepler_residual_def using assms(1,2) that by (intro zone_near4)
  qed
  have c5: "?R" if "s \<le> 63 / 100"
  proof (cases "s \<le> 11 / 25")
    case True
    then show ?thesis by (rule c4)
  next
    case False
    then have "11 / 25 \<le> s" by simp
    then show ?thesis
      unfolding kepler_residual_def using assms(1,2) that by (intro zone_near5)
  qed
  have c6: "?R" if "s \<le> 3 / 4"
  proof (cases "s \<le> 63 / 100")
    case True
    then show ?thesis by (rule c5)
  next
    case False
    then have "63 / 100 \<le> s" by simp
    then show ?thesis
      unfolding kepler_residual_def using assms(1,2) that by (intro zone_near6)
  qed
  have c7: "?R" if "s \<le> 83 / 100"
  proof (cases "s \<le> 3 / 4")
    case True
    then show ?thesis by (rule c6)
  next
    case False
    then have "3 / 4 \<le> s" by simp
    then show ?thesis
      unfolding kepler_residual_def using assms(1,2) that by (intro zone_near7)
  qed
  have c8: "?R" if "s \<le> 9 / 10"
  proof (cases "s \<le> 83 / 100")
    case True
    then show ?thesis by (rule c7)
  next
    case False
    then have "83 / 100 \<le> s" by simp
    then show ?thesis
      unfolding kepler_residual_def using assms(1,2) that by (intro zone_near8)
  qed
  have c9: "?R" if "s \<le> 49 / 50"
  proof (cases "s \<le> 9 / 10")
    case True
    then show ?thesis by (rule c8)
  next
    case False
    then have "9 / 10 \<le> s" by simp
    then show ?thesis
      unfolding kepler_residual_def using assms(1,2) that by (intro zone_near9)
  qed
  have c10: "?R" if "s \<le> 28 / 25"
  proof (cases "s \<le> 49 / 50")
    case True
    then show ?thesis by (rule c9)
  next
    case False
    then have "49 / 50 \<le> s" by simp
    then show ?thesis
      unfolding kepler_residual_def using assms(1,2) that by (intro zone_near10)
  qed
  have c11: "?R" if "s \<le> 131 / 100"
  proof (cases "s \<le> 28 / 25")
    case True
    then show ?thesis by (rule c10)
  next
    case False
    then have "28 / 25 \<le> s" by simp
    then show ?thesis
      unfolding kepler_residual_def using assms(1,2) that by (intro zone_near11)
  qed
  have c12: "?R" if "s \<le> 77 / 50"
  proof (cases "s \<le> 131 / 100")
    case True
    then show ?thesis by (rule c11)
  next
    case False
    then have "131 / 100 \<le> s" by simp
    then show ?thesis
      unfolding kepler_residual_def using assms(1,2) that by (intro zone_near12)
  qed
  have c13: "?R" if "s \<le> 79 / 50"
  proof (cases "s \<le> 77 / 50")
    case True
    then show ?thesis by (rule c12)
  next
    case False
    then have "77 / 50 \<le> s" by simp
    then show ?thesis
      unfolding kepler_residual_def using assms(1,2) that by (intro zone_near13)
  qed
  show ?thesis
  proof (cases "s \<le> 158 / 100")
    case True
    then show ?thesis by (intro c13) simp
  next
    case False
    then have "pi / 2 \<le> s" using pi_bounds by simp
    then show ?thesis unfolding kepler_residual_def
      using assms by (intro zone_far) simp_all
  qed
qed

lemma kepler_residual_small:
  assumes "0 \<le> e" "e \<le> 19 / 20" "0 \<le> M" "M \<le> pi"
  shows "\<bar>kepler_residual M e\<bar> < 1 / 10 ^ 6"
proof -
  obtain s where s: "0 \<le> s" "s \<le> pi" "s - e * sin s = M"
    using eccentric_anomaly_exists [OF assms(1,3,4)] by blast
  show ?thesis using kepler_core [OF assms(1,2) s(1,2)] unfolding s(3) .
qed

text \<open>
  Claim C2. For every eccentricity \<open>e\<close> with \<open>0 \<le> e < 0.95\<close> and every mean anomaly \<open>M\<close>,
  the value \<open>E\<close> that \<open>solveKepler(M, e)\<close> returns after its seven Newton iterations from
  the seed \<open>M\<close> satisfies \<open>\<bar>E - e sin E - M\<bar> < 1e-6\<close>.
\<close>

theorem solveKepler_residual_bound:
  assumes "0 \<le> e" "e < 95 / 100"
  shows "\<bar>solveKepler M e - e * sin (solveKepler M e) - M\<bar> < 1 / 10 ^ 6"
proof -
  have e: "e \<le> 19 / 20" using assms by simp
  obtain k :: int where k: "- pi \<le> M - 2 * pi * of_int k" "M - 2 * pi * of_int k \<le> pi"
    using reduce_mean_anomaly [of M] by blast
  define M' where "M' = M - 2 * pi * of_int k"
  have "kepler_residual (M' + 2 * pi * of_int k) e = kepler_residual M' e"
    by (rule kepler_residual_shift)
  then have shift: "kepler_residual M e = kepler_residual M' e" by (simp add: M'_def)
  have "\<bar>kepler_residual M' e\<bar> < 1 / 10 ^ 6"
  proof (cases "0 \<le> M'")
    case True
    then show ?thesis using assms(1) e k by (intro kepler_residual_small) (simp_all add: M'_def)
  next
    case False
    then have "\<bar>kepler_residual (- M') e\<bar> < 1 / 10 ^ 6"
      using assms(1) e k by (intro kepler_residual_small) (simp_all add: M'_def)
    then show ?thesis using kepler_residual_neg [of M' e] by simp
  qed
  then show ?thesis using shift by (simp add: kepler_residual_def)
qed

theorem solveKepler_residual_bound_witness:
  "(0::real) \<le> 1 / 2 \<and> (1 / 2 :: real) < 95 / 100
   \<and> \<bar>solveKepler 1 (1 / 2) - 1 / 2 * sin (solveKepler 1 (1 / 2)) - 1\<bar> < 1 / 10 ^ 6"
  using solveKepler_residual_bound [of "1 / 2" 1] by simp

section \<open>The position in the orbital plane\<close>

text \<open>
  Claim C7. For every body with \<open>0 \<le> e < 1\<close> whose scaled semi-major axis
  \<open>a_s = currentScale.distance(a)\<close> is a non-zero number, and for every eccentric
  anomaly \<open>E\<close>, the propagator computes \<open>x_orb = a_s (cos E - e)\<close> and
  \<open>y_orb = a_s \<surd>(1 - e\<^sup>2) sin E\<close>, and this point lies on the ellipse with semi-major
  axis \<open>a_s\<close>, eccentricity \<open>e\<close> and a focus at the origin:
  \<open>(x_orb + a_s e)\<^sup>2 / a_s\<^sup>2 + y_orb\<^sup>2 / (a_s\<^sup>2 (1 - e\<^sup>2)) = 1\<close>.
\<close>

theorem orbital_position_on_ellipse:
  assumes "0 \<le> data_e data" "data_e data < 1"
    and "distance currentScale (data_a data) = Some a_s" "a_s \<noteq> 0"
  shows "\<exists>x_orb y_orb. orbitalCoordinates currentScale data E = Some (x_orb, y_orb)
     \<and> x_orb = a_s * (cos E - data_e data)
     \<and> y_orb = a_s * sqrt (1 - (data_e data)\<^sup>2) * sin E
     \<and> (x_orb + a_s * data_e data)\<^sup>2 / a_s\<^sup>2
         + y_orb\<^sup>2 / (a_s\<^sup>2 * (1 - (data_e data)\<^sup>2)) = 1"
proof -
  let ?e = "data_e data"
  have e2: "?e\<^sup>2 < 1" using assms(1,2) by (simp add: power_less_one_iff)
  then have pos: "0 < 1 - ?e\<^sup>2" by simp
  have coords: "orbitalCoordinates currentScale data E
      = Some (a_s * (cos E - ?e), a_s * sqrt (1 - ?e\<^sup>2) * sin E)"
    using assms(3) pos by (simp add: orbitalCoordinates_def Let_def)
  have "(a_s * (cos E - ?e) + a_s * ?e)\<^sup>2 / a_s\<^sup>2 = (cos E)\<^sup>2"
    using assms(4) by (simp add: algebra_simps)
  moreover have "(a_s * sqrt (1 - ?e\<^sup>2) * sin E)\<^sup>2 / (a_s\<^sup>2 * (1 - ?e\<^sup>2)) = (sin E)\<^sup>2"
    using assms(4) pos by (simp add: power_mult_distrib)
  ultimately show ?thesis
    using coords by simp
qed

theorem orbital_position_on_ellipse_witness:
  "0 \<le> data_e earth \<and> data_e earth < 1
   \<and> distance trueScale (data_a earth) = Some (data_a earth * AU / TRUE_SCALE_KM_PER_UNIT)
   \<and> data_a earth * AU / TRUE_SCALE_KM_PER_UNIT \<noteq> 0
   \<and> (\<exists>x_orb y_orb. orbitalCoordinates trueScale earth 0 = Some (x_orb, y_orb)
     \<and> x_orb = data_a earth * AU / TRUE_SCALE_KM_PER_UNIT * (cos 0 - data_e earth)
     \<and> y_orb = data_a earth * AU / TRUE_SCALE_KM_PER_UNIT * sqrt (1 - (data_e earth)\<^sup>2) * sin 0
     \<and> (x_orb + data_a earth * AU / TRUE_SCALE_KM_PER_UNIT * data_e earth)\<^sup>2
           / (data_a earth * AU / TRUE_SCALE_KM_PER_UNIT)\<^sup>2
         + y_orb\<^sup>2 / ((data_a earth * AU / TRUE_SCALE_KM_PER_UNIT)\<^sup>2 * (1 - (data_e earth)\<^sup>2))
         = 1)"
proof -
  have h1: "0 \<le> data_e earth" and h2: "data_e earth < 1"
    by (simp_all add: earth_def)
  have h3: "distance trueScale (data_a earth) = Some (data_a earth * AU / TRUE_SCALE_KM_PER_UNIT)"
    by simp
  have h4: "data_a earth * AU / TRUE_SCALE_KM_PER_UNIT \<noteq> 0"
    by (simp add: earth_def AU_def TRUE_SCALE_KM_PER_UNIT_def)
  from orbital_position_on_ellipse [OF h1 h2 h3 h4, of 0] h1 h2 h3 h4
  show ?thesis by (intro conjI)
qed

section \<open>The rotation into the ecliptic frame\<close>

text \<open>
  The two versions of \<open>updatePositions\<close> against the composition of the specification.
  For every body and every vector of the orbital plane, model.js applies the rotations
  about the ecliptic z axis, the x axis and the z axis again with the longitude of
  perihelion \<open>\<varpi>\<close> as the angle of the rotation applied first, and the version of
  src/unnamed/part_000 applies them with the argument of perihelion \<open>\<omega> = \<varpi> - \<Omega>\<close>.
\<close>

lemma position_model_js_rotation:
  "position_model_js data orb = eclipticToWorld (spec_rotation (data_varpi data) data orb)"
  by (cases orb)
     (simp add: position_model_js_def spec_rotation_def eclipticToWorld_def makeRotationX_def
        makeRotationY_def R_x_def R_z_def Let_def algebra_simps)

lemma ecliptic_part_000_rotation:
  "ecliptic_part_000 data orb = spec_ecliptic data orb"
  by (cases orb)
     (simp add: ecliptic_part_000_def spec_ecliptic_def spec_rotation_def makeRotationX_def
        makeRotationZ_def R_x_def R_z_def Let_def algebra_simps)

lemma position_part_000_rotation:
  "position_part_000 data orb = eclipticToWorld (spec_ecliptic data orb)"
  by (simp add: position_part_000_def ecliptic_part_000_rotation)

lemma world_height_model_js:
  "fst (snd (position_model_js data (1, 0)))
     = sin (degToRad (data_i data)) * sin (degToRad (data_varpi data))"
  by (simp add: position_model_js_def makeRotationX_def makeRotationY_def Let_def)

lemma world_height_spec:
  "fst (snd (eclipticToWorld (spec_ecliptic data (1, 0))))
     = sin (degToRad (data_i data)) * sin (degToRad (data_varpi data - data_Omega data))"
  by (simp add: spec_ecliptic_def spec_rotation_def eclipticToWorld_def R_x_def R_z_def)

lemma sin_degToRad_less:
  assumes "0 \<le> x" "x < y" "y \<le> 90"
  shows "sin (degToRad x) < sin (degToRad y)"
proof -
  have "degToRad x < degToRad y" using assms by (simp add: degToRad_def)
  moreover have "- (pi / 2) \<le> degToRad x"
  proof -
    have "0 \<le> x * (pi / 180)" using assms by simp
    moreover have "- (pi / 2) \<le> 0" by simp
    ultimately show ?thesis unfolding degToRad_def by linarith
  qed
  moreover have "degToRad y \<le> pi / 2"
  proof -
    have "y * (pi / 180) \<le> 90 * (pi / 180)" using assms by (intro mult_right_mono) simp_all
    then show ?thesis by (simp add: degToRad_def)
  qed
  ultimately show ?thesis by (intro sin_monotone_2pi) simp_all
qed

text \<open>
  Claim C1 fails on model.js. For Mercury and the vector \<open>(x_orb, y_orb) = (1, 0)\<close> of
  the orbital plane, the position that model.js computes is the composition of the
  specification with the longitude of perihelion \<open>\<varpi>\<close> as the angle of the first rotation,
  and it is not the position that the composition with the argument of perihelion
  \<open>\<omega> = \<varpi> - \<Omega>\<close> gives: the heights above the ecliptic are \<open>sin i \<sqdot> sin \<varpi>\<close> and
  \<open>sin i \<sqdot> sin \<omega>\<close>.
\<close>

theorem mercury_position_uses_varpi:
  "position_model_js mercury (1, 0)
     = eclipticToWorld (spec_rotation (data_varpi mercury) mercury (1, 0))
   \<and> position_model_js mercury (1, 0) \<noteq> eclipticToWorld (spec_ecliptic mercury (1, 0))"
proof -
  have "sin (degToRad 0) < sin (degToRad (data_i mercury))"
    by (rule sin_degToRad_less) (simp_all add: mercury_def)
  then have i: "0 < sin (degToRad (data_i mercury))" by (simp add: degToRad_def)
  have "sin (degToRad (data_varpi mercury - data_Omega mercury))
      < sin (degToRad (data_varpi mercury))"
    by (rule sin_degToRad_less) (simp_all add: mercury_def)
  with i have "fst (snd (eclipticToWorld (spec_ecliptic mercury (1, 0))))
      < fst (snd (position_model_js mercury (1, 0)))"
    unfolding world_height_model_js world_height_spec by simp
  then have "position_model_js mercury (1, 0) \<noteq> eclipticToWorld (spec_ecliptic mercury (1, 0))"
    by auto
  then show ?thesis by (simp add: position_model_js_rotation)
qed

section \<open>The impact calculator\<close>

lemma calculateImpactRadius_positive:
  assumes "0 < d" "0 < s" "0 < dia"
  shows "calculateImpactRadius (Some d) (Some s) (Some dia) =
     Inr \<lparr>kinetic_energy_joules = (pi / 12) * d * (dia ^ 3) * (s ^ 2),
          kinetic_energy_megatons = (pi / 12) * d * (dia ^ 3) * (s ^ 2) / 4184000000000000,
          severe_radius_km = 0.00018 * root 3 ((pi / 12) * d * (dia ^ 3) * (s ^ 2)) / 1000,
          moderate_radius_km = 0.0004 * root 3 ((pi / 12) * d * (dia ^ 3) * (s ^ 2)) / 1000,
          light_radius_km = 0.0008 * root 3 ((pi / 12) * d * (dia ^ 3) * (s ^ 2)) / 1000,
          damage_classification =
            (if 0.00018 * root 3 ((pi / 12) * d * (dia ^ 3) * (s ^ 2)) / 1000 > 5 then Severe
             else if 0.0004 * root 3 ((pi / 12) * d * (dia ^ 3) * (s ^ 2)) / 1000 > 2
             then Moderate
             else Light),
          density_kg_m3 = d, speed_m_s = s, diameter_m = dia\<rparr>"
  using assms by (simp add: calculateImpactRadius_def Let_def)

lemma calculateImpactRadius_returns_iff:
  "(\<not> isl (calculateImpactRadius density speed diameter)) =
     (\<exists>d s dia. density = Some d \<and> speed = Some s \<and> diameter = Some dia
        \<and> 0 < d \<and> 0 < s \<and> 0 < dia)"
  by (auto simp add: calculateImpactRadius_def Let_def split: option.splits)

lemma kineticEnergy_pos:
  fixes d s dia :: real
  assumes "0 < d" "0 < s" "0 < dia"
  shows "0 < (pi / 12) * d * (dia ^ 3) * (s ^ 2)"
  using assms by simp

text \<open>
  Claim C4. For every valid input of \<open>calculateImpactRadius\<close> (positive density, speed
  and diameter) the call returns, each radius is its coefficient (\<open>1.8e-4\<close>, \<open>4.0e-4\<close>,
  \<open>8.0e-4\<close>) times the cube root of the same kinetic energy, converted from meters to
  kilometers, and the radii are nested: severe \<open>\<le>\<close> moderate \<open>\<le>\<close> light.
\<close>

theorem impact_radii_nested:
  assumes "0 < d" "0 < s" "0 < dia"
  shows "\<exists>r. calculateImpactRadius (Some d) (Some s) (Some dia) = Inr r
     \<and> severe_radius_km r = 0.00018 * root 3 (kinetic_energy_joules r) / 1000
     \<and> moderate_radius_km r = 0.0004 * root 3 (kinetic_energy_joules r) / 1000
     \<and> light_radius_km r = 0.0008 * root 3 (kinetic_energy_joules r) / 1000
     \<and> severe_radius_km r \<le> moderate_radius_km r
     \<and> moderate_radius_km r \<le> light_radius_km r"
proof -
  let ?E = "(pi / 12) * d * (dia ^ 3) * (s ^ 2)"
  have "0 < ?E" using assms by (rule kineticEnergy_pos)
  then have "0 < root 3 ?E" by simp
  then show ?thesis
    unfolding calculateImpactRadius_positive [OF assms] by simp
qed

theorem impact_radii_nested_witness:
  "(0::real) < 3000 \<and> (0::real) < 20000 \<and> (0::real) < 100 \<and>
   (\<exists>r. calculateImpactRadius (Some 3000) (Some 20000) (Some 100) = Inr r
     \<and> severe_radius_km r = 0.00018 * root 3 (kinetic_energy_joules r) / 1000
     \<and> moderate_radius_km r = 0.0004 * root 3 (kinetic_energy_joules r) / 1000
     \<and> light_radius_km r = 0.0008 * root 3 (kinetic_energy_joules r) / 1000
     \<and> severe_radius_km r \<le> moderate_radius_km r
     \<and> moderate_radius_km r \<le> light_radius_km r)"
  using impact_radii_nested [of 3000 20000 100] by simp

lemma energyFromSizeMt_positive:
  assumes "0 < rho" "0 < v" "0 < d"
  shows "energyFromSizeMt (Some d) (Some rho) (Some (v / 1000))
     = Some ((pi / 12) * rho * (d ^ 3) * (v ^ 2) / MT_J)"
  using assms by (simp add: energyFromSizeMt_def Let_def power2_eq_square)

lemma example_energy_bounds:
  "3.141 * 10 ^ 17 < pi * 10 ^ 17" "pi * 10 ^ 17 < 3.142 * 10 ^ 17"
  "75.05 < pi * 10 ^ 17 / MT_J" "pi * 10 ^ 17 / MT_J < 75.15"
  using pi_bounds by (simp_all add: MT_J_def)

text \<open>
  Claim C5, as stated, fails at its example: for diameter 100 m, density 3000 kg per cubic meter
  and speed 20000 m/s (20 km/s for \<open>energyFromSizeMt\<close>) the kinetic energy computed is
  \<open>\<pi> \<sqdot> 10\<^sup>1\<^sup>7\<close> J, more than 500 times the stated \<open>6.28 \<sqdot> 10\<^sup>1\<^sup>4\<close> J, and its equivalent in
  megatons is less than half the stated 150 Mt.
\<close>

theorem energy_example_counterexample:
  "kinetic_energy_joules (projr (calculateImpactRadius (Some 3000) (Some 20000) (Some 100)))
      = pi * 10 ^ 17
   \<and> 500 * (6.28 * 10 ^ 14)
      < kinetic_energy_joules (projr (calculateImpactRadius (Some 3000) (Some 20000) (Some 100)))
   \<and> kinetic_energy_megatons (projr (calculateImpactRadius (Some 3000) (Some 20000) (Some 100)))
      < 150 / 1.99
   \<and> energyFromSizeMt (Some 100) (Some 3000) (Some 20)
      = Some (kinetic_energy_megatons
          (projr (calculateImpactRadius (Some 3000) (Some 20000) (Some 100))))"
proof -
  have ex: "(0::real) < 3000" "(0::real) < 20000" "(0::real) < 100" by simp_all
  have mt: "energyFromSizeMt (Some 100) (Some 3000) (Some 20) = Some (pi * 10 ^ 17 / MT_J)"
    using energyFromSizeMt_positive [OF ex] by simp
  show ?thesis
    unfolding calculateImpactRadius_positive [OF ex] mt
    using example_energy_bounds by (simp add: MT_J_def)
qed

text \<open>
  Claim C5, amended. For positive density \<open>\<rho>\<close>, speed \<open>v\<close> and diameter \<open>d\<close> the kinetic
  energy computed is \<open>E = (\<pi>/12) \<sqdot> \<rho> \<sqdot> d\<^sup>3 \<sqdot> v\<^sup>2\<close>, in megatons \<open>E / 4.184e15\<close>, and
  \<open>energyFromSizeMt\<close>, given the speed in km/s, returns the same value in megatons. For
  diameter 100 m, density 3000 kg per cubic meter and speed 20000 m/s the result is
  \<open>E = \<pi> \<sqdot> 10\<^sup>1\<^sup>7\<close> J, between \<open>3.141 \<sqdot> 10\<^sup>1\<^sup>7\<close> and \<open>3.142 \<sqdot> 10\<^sup>1\<^sup>7\<close> J, that is between
  75.05 and 75.15 Mt.
\<close>

theorem kinetic_energy_formula:
  assumes "0 < rho" "0 < v" "0 < d"
  shows "(\<exists>r. calculateImpactRadius (Some rho) (Some v) (Some d) = Inr r
       \<and> kinetic_energy_joules r = (pi / 12) * rho * d ^ 3 * v ^ 2
       \<and> kinetic_energy_megatons r = kinetic_energy_joules r / MT_J
       \<and> energyFromSizeMt (Some d) (Some rho) (Some (v / 1000))
           = Some (kinetic_energy_megatons r))
     \<and> (\<exists>r. calculateImpactRadius (Some 3000) (Some 20000) (Some 100) = Inr r
       \<and> kinetic_energy_joules r = pi * 10 ^ 17
       \<and> 3.141 * 10 ^ 17 < kinetic_energy_joules r
       \<and> kinetic_energy_joules r < 3.142 * 10 ^ 17
       \<and> kinetic_energy_megatons r = pi * 10 ^ 17 / MT_J
       \<and> 75.05 < kinetic_energy_megatons r
       \<and> kinetic_energy_megatons r < 75.15
       \<and> energyFromSizeMt (Some 100) (Some 3000) (Some 20) = Some (kinetic_energy_megatons r))"
proof (intro conjI)
  show "\<exists>r. calculateImpactRadius (Some rho) (Some v) (Some d) = Inr r
       \<and> kinetic_energy_joules r = (pi / 12) * rho * d ^ 3 * v ^ 2
       \<and> kinetic_energy_megatons r = kinetic_energy_joules r / MT_J
       \<and> energyFromSizeMt (Some d) (Some rho) (Some (v / 1000))
           = Some (kinetic_energy_megatons r)"
    unfolding calculateImpactRadius_positive [OF assms] energyFromSizeMt_positive [OF assms]
    by (simp add: MT_J_def)
  have ex: "(0::real) < 3000" "(0::real) < 20000" "(0::real) < 100" by simp_all
  have mt: "energyFromSizeMt (Some 100) (Some 3000) (Some 20) = Some (pi * 10 ^ 17 / MT_J)"
    using energyFromSizeMt_positive [OF ex] by simp
  show "\<exists>r. calculateImpactRadius (Some 3000) (Some 20000) (Some 100) = Inr r
       \<and> kinetic_energy_joules r = pi * 10 ^ 17
       \<and> 3.141 * 10 ^ 17 < kinetic_energy_joules r
       \<and> kinetic_energy_joules r < 3.142 * 10 ^ 17
       \<and> kinetic_energy_megatons r = pi * 10 ^ 17 / MT_J
       \<and> 75.05 < kinetic_energy_megatons r
       \<and> kinetic_energy_megatons r < 75.15
       \<and> energyFromSizeMt (Some 100) (Some 3000) (Some 20) = Some (kinetic_energy_megatons r)"
    unfolding calculateImpactRadius_positive [OF ex] mt
    using example_energy_bounds by (simp add: MT_J_def)
qed

theorem kinetic_energy_formula_witness:
  "(0::real) < 2 \<and> (0::real) < 3000 \<and> (0::real) < 1
   \<and> (\<exists>r. calculateImpactRadius (Some 2) (Some 3000) (Some 1) = Inr r
       \<and> kinetic_energy_joules r = pi * 1500000
       \<and> energyFromSizeMt (Some 1) (Some 2) (Some 3) = Some (kinetic_energy_megatons r))"
proof -
  have h: "(0::real) < 2" "(0::real) < 3000" "(0::real) < 1" by simp_all
  from kinetic_energy_formula [OF h]
  obtain r where "calculateImpactRadius (Some 2) (Some 3000) (Some 1) = Inr r"
    and "kinetic_energy_joules r = (pi / 12) * 2 * 1 ^ 3 * 3000 ^ 2"
    and "energyFromSizeMt (Some 1) (Some 2) (Some (3000 / 1000)) = Some (kinetic_energy_megatons r)"
    by blast
  then show ?thesis by simp
qed

lemma kineticEnergy_mono:
  fixes d s dia d' s' dia' :: real
  assumes "0 < d" "0 < s" "0 < dia" "d \<le> d'" "s \<le> s'" "dia \<le> dia'"
    and "d < d' \<or> s < s' \<or> dia < dia'"
  shows "(pi / 12) * d * (dia ^ 3) * (s ^ 2) < (pi / 12) * d' * (dia' ^ 3) * (s' ^ 2)"
proof -
  have a: "dia ^ 3 \<le> dia' ^ 3" "s ^ 2 \<le> s' ^ 2"
    using assms by (simp_all add: power_mono)
  have p: "0 < dia ^ 3" "0 < s ^ 2" "0 < d'" "0 < dia' ^ 3" "0 < s'^2"
    using assms by simp_all
  have strict: "d < d' \<or> dia ^ 3 < dia' ^ 3 \<or> s ^ 2 < s' ^ 2"
    using assms by (auto simp add: power_strict_mono)
  have "d * (dia ^ 3) * (s ^ 2) < d' * (dia' ^ 3) * (s' ^ 2)"
  proof -
    have 1: "d * dia ^ 3 \<le> d' * dia' ^ 3"
      using assms a p by (intro mult_mono) simp_all
    from strict show ?thesis
    proof (elim disjE)
      assume "d < d'"
      then have "d * dia ^ 3 < d' * dia ^ 3" using p by simp
      also have "\<dots> \<le> d' * dia' ^ 3" using a p by simp
      finally have "d * dia ^ 3 * s ^ 2 < d' * dia' ^ 3 * s ^ 2" using p by simp
      also have "\<dots> \<le> d' * dia' ^ 3 * s' ^ 2" using a p by simp
      finally show ?thesis .
    next
      assume "dia ^ 3 < dia' ^ 3"
      then have "d' * dia ^ 3 < d' * dia' ^ 3" using p by simp
      moreover have "d * dia ^ 3 \<le> d' * dia ^ 3" using assms p by simp
      ultimately have "d * dia ^ 3 < d' * dia' ^ 3" by linarith
      then have "d * dia ^ 3 * s ^ 2 < d' * dia' ^ 3 * s ^ 2" using p by simp
      also have "\<dots> \<le> d' * dia' ^ 3 * s' ^ 2" using a p by simp
      finally show ?thesis .
    next
      assume "s ^ 2 < s' ^ 2"
      then have "d' * dia' ^ 3 * s ^ 2 < d' * dia' ^ 3 * s' ^ 2" using p by simp
      moreover have "d * dia ^ 3 * s ^ 2 \<le> d' * dia' ^ 3 * s ^ 2" using 1 p by simp
      ultimately show ?thesis by linarith
    qed
  qed
  then have "(pi / 12) * (d * (dia ^ 3) * (s ^ 2)) < (pi / 12) * (d' * (dia' ^ 3) * (s' ^ 2))"
    by simp
  then show ?thesis by (simp only: mult.assoc)
qed

lemma calculateImpactRadius_mono:
  assumes "0 < d" "0 < s" "0 < dia" "d \<le> d'" "s \<le> s'" "dia \<le> dia'"
    and "d < d' \<or> s < s' \<or> dia < dia'"
  shows "strictly_below (calculateImpactRadius (Some d) (Some s) (Some dia))
           (calculateImpactRadius (Some d') (Some s') (Some dia'))"
proof -
  have pos': "0 < d'" "0 < s'" "0 < dia'" using assms by linarith+
  have "(pi / 12) * d * (dia ^ 3) * (s ^ 2) < (pi / 12) * d' * (dia' ^ 3) * (s' ^ 2)"
    using assms by (rule kineticEnergy_mono)
  then show ?thesis
    unfolding calculateImpactRadius_positive [OF assms(1-3)]
      calculateImpactRadius_positive [OF pos'] strictly_below_def
    by simp
qed

text \<open>
  Claim C8. Over positive inputs the kinetic energy and each of the three damage radii
  returned by \<open>calculateImpactRadius\<close> are strictly increasing in the density, in the
  speed and in the diameter separately, the other two inputs held fixed.
\<close>

theorem impact_strictly_increasing:
  assumes "0 < density" "0 < speed" "0 < diameter"
    and "density < density'" "speed < speed'" "diameter < diameter'"
  shows "strictly_below (calculateImpactRadius (Some density) (Some speed) (Some diameter))
           (calculateImpactRadius (Some density') (Some speed) (Some diameter))
       \<and> strictly_below (calculateImpactRadius (Some density) (Some speed) (Some diameter))
           (calculateImpactRadius (Some density) (Some speed') (Some diameter))
       \<and> strictly_below (calculateImpactRadius (Some density) (Some speed) (Some diameter))
           (calculateImpactRadius (Some density) (Some speed) (Some diameter'))"
  using assms by (intro conjI calculateImpactRadius_mono) simp_all

theorem impact_strictly_increasing_witness:
  "(0::real) < 3000 \<and> (0::real) < 20000 \<and> (0::real) < 100
   \<and> (3000::real) < 3001 \<and> (20000::real) < 20001 \<and> (100::real) < 101
   \<and> strictly_below (calculateImpactRadius (Some 3000) (Some 20000) (Some 100))
           (calculateImpactRadius (Some 3001) (Some 20000) (Some 100))
   \<and> strictly_below (calculateImpactRadius (Some 3000) (Some 20000) (Some 100))
           (calculateImpactRadius (Some 3000) (Some 20001) (Some 100))
   \<and> strictly_below (calculateImpactRadius (Some 3000) (Some 20000) (Some 100))
           (calculateImpactRadius (Some 3000) (Some 20000) (Some 101))"
  using impact_strictly_increasing [of 3000 20000 100 3001 20001 101] by simp

section \<open>The casualty estimate\<close>

lemma estimateCasualties_throws_iff:
  "isl (estimateCasualties s m l p) =
     (negative_or_NaN s \<or> negative_or_NaN m \<or> negative_or_NaN l
      \<or> (case p of None \<Rightarrow> False | Some v \<Rightarrow> negative_or_NaN v))"
  by (auto simp add: estimateCasualties_def negative_or_NaN_def Let_def
      split: option.splits)

lemma estimateCasualties_zero_radii:
  assumes "0 \<le> pop"
  shows "estimateCasualties (Some 0) (Some 0) (Some 0) (Some (Some pop)) = Inr zero_casualties"
  using assms by (simp add: estimateCasualties_def zero_casualties_def Math_round_def Let_def)

lemma estimateCasualties_default:
  "estimateCasualties s m l None = estimateCasualties s m l (Some (Some 100))"
  by (simp add: estimateCasualties_def)

text \<open>
  Claim C10. \<open>estimateCasualties\<close> throws exactly when one of its inputs is negative or
  not a number, so that zero is accepted; with the three radii zero and any population
  density that is not negative, given or left out, it returns zero casualties in every
  zone, zero casualties in total and zero areas; and a call without the population
  density is the call with the density 100.
\<close>

theorem estimateCasualties_accepts_zero:
  assumes "0 \<le> pop"
  shows "isl (estimateCasualties s m l p) =
           (negative_or_NaN s \<or> negative_or_NaN m \<or> negative_or_NaN l
            \<or> (case p of None \<Rightarrow> False | Some v \<Rightarrow> negative_or_NaN v))
       \<and> estimateCasualties (Some 0) (Some 0) (Some 0) (Some (Some pop)) = Inr zero_casualties
       \<and> estimateCasualties (Some 0) (Some 0) (Some 0) None = Inr zero_casualties
       \<and> estimateCasualties s m l None = estimateCasualties s m l (Some (Some 100))"
  using assms estimateCasualties_zero_radii [of 100]
  by (simp add: estimateCasualties_throws_iff estimateCasualties_zero_radii
      estimateCasualties_default)

theorem estimateCasualties_accepts_zero_witness:
  "(0::real) \<le> 0
   \<and> isl (estimateCasualties (Some 0) (Some 3) (Some 0) (Some (Some 0))) = False
   \<and> estimateCasualties (Some 0) (Some 0) (Some 0) (Some (Some 0)) = Inr zero_casualties
   \<and> estimateCasualties (Some 0) (Some 0) (Some 0) None = Inr zero_casualties
   \<and> estimateCasualties (Some 0) (Some 3) (Some 0) None
       = estimateCasualties (Some 0) (Some 3) (Some 0) (Some (Some 100))"
  using estimateCasualties_accepts_zero [of 0 "Some 0" "Some 3" "Some 0" "Some (Some 0)"]
  by (simp add: negative_or_NaN_def)

section \<open>The Palermo scale\<close>

lemma recalc_PS_positive:
  assumes "0 < Pi" "0 < Ti" "0 < fB"
  shows "recalc_PS (Some Pi) (Some Ti) (Some fB) = Some (log 10 ((Pi / Ti) / fB))"
  using assms by (simp add: recalc_PS_def)

lemma recalc_psInterp_bands:
  "(recalc_psInterp (Some ps) = Above_background_risk) = (0 < ps)"
  "(recalc_psInterp (Some ps) = Comparable_to_background) = (- 2 < ps \<and> ps \<le> 0)"
  "(recalc_psInterp (Some ps) = Well_below_background) = (ps \<le> - 2)"
  by (auto simp add: recalc_psInterp_def)

text \<open>
  Claim C6. For all positive \<open>Pi\<close>, \<open>Ti\<close> and \<open>fB\<close> the Palermo scale value is
  \<open>PS = log10((Pi/Ti)/fB)\<close>, and its interpretation is "above background" exactly when
  \<open>PS > 0\<close>, "comparable to background" exactly when \<open>-2 < PS \<le> 0\<close>, and "well below
  background" exactly when \<open>PS \<le> -2\<close>. (The witness is the example of the claim:
  \<open>Pi = 1e-4\<close>, \<open>Ti = 10\<close>, \<open>fB = 1e-5\<close> give \<open>PS = 0\<close>, comparable to background.)
\<close>

theorem palermo_scale_bands:
  assumes "0 < Pi" "0 < Ti" "0 < fB"
  shows "recalc_PS (Some Pi) (Some Ti) (Some fB) = Some (log 10 ((Pi / Ti) / fB))
     \<and> (recalc_psInterp (recalc_PS (Some Pi) (Some Ti) (Some fB)) = Above_background_risk)
         = (0 < log 10 ((Pi / Ti) / fB))
     \<and> (recalc_psInterp (recalc_PS (Some Pi) (Some Ti) (Some fB)) = Comparable_to_background)
         = (- 2 < log 10 ((Pi / Ti) / fB) \<and> log 10 ((Pi / Ti) / fB) \<le> 0)
     \<and> (recalc_psInterp (recalc_PS (Some Pi) (Some Ti) (Some fB)) = Well_below_background)
         = (log 10 ((Pi / Ti) / fB) \<le> - 2)"
  unfolding recalc_PS_positive [OF assms] recalc_psInterp_bands by simp

theorem palermo_scale_bands_witness:
  "(0::real) < 1 / 10000 \<and> (0::real) < 10 \<and> (0::real) < 1 / 100000
   \<and> recalc_PS (Some (1 / 10000)) (Some 10) (Some (1 / 100000)) = Some 0
   \<and> recalc_psInterp (recalc_PS (Some (1 / 10000)) (Some 10) (Some (1 / 100000)))
       = Comparable_to_background"
proof -
  have "recalc_PS (Some (1 / 10000)) (Some 10) (Some (1 / 100000)) = Some (0::real)"
    using palermo_scale_bands [of "1 / 10000" 10 "1 / 100000"] by simp
  then show ?thesis by (simp add: recalc_psInterp_def)
qed
end
